theory Spec2Isabelle
  imports Complex_Main "HOL-Library.Product_Lexorder" "HOL-Library.Sublist"
begin

section \<open>Strings\<close>

text \<open>
  A Python \<open>str\<close> is modelled as a \<open>string\<close>: a list of characters, each read as one
  code point in the range U+0000 .. U+00FF, so that \<open>length\<close> is Python's \<open>len\<close>.
  Font sizes and positions (Python floats) are modelled as rationals; NaN and the
  infinities are outside the model.
\<close>

definition isspace :: "char \<Rightarrow> bool" where
  \<comment> \<open>\<open>str.isspace\<close> and the regular expression class \<open>\s\<close> on code points below 256\<close>
  "isspace c =
     (let n = (of_char c :: nat)
      in (9 \<le> n \<and> n \<le> 13) \<or> (28 \<le> n \<and> n \<le> 32) \<or> n = 133 \<or> n = 160)"

definition isdigit :: "char \<Rightarrow> bool" where
  \<comment> \<open>the class \<open>\d\<close> on code points below 256\<close>
  "isdigit c = (let n = (of_char c :: nat) in 48 \<le> n \<and> n \<le> 57)"

definition is_AZ :: "char \<Rightarrow> bool" where
  "is_AZ c = (let n = (of_char c :: nat) in 65 \<le> n \<and> n \<le> 90)"

definition is_az :: "char \<Rightarrow> bool" where
  "is_az c = (let n = (of_char c :: nat) in 97 \<le> n \<and> n \<le> 122)"

definition lower_char :: "char \<Rightarrow> char" where
  "lower_char c =
     (let n = (of_char c :: nat)
      in if (65 \<le> n \<and> n \<le> 90) \<or> (192 \<le> n \<and> n \<le> 214) \<or> (216 \<le> n \<and> n \<le> 222)
         then char_of (n + 32) else c)"

definition lower :: "string \<Rightarrow> string" where
  \<comment> \<open>\<open>str.lower()\<close>\<close>
  "lower s = map lower_char s"

definition strip :: "string \<Rightarrow> string" where
  \<comment> \<open>\<open>str.strip()\<close>: leading and trailing whitespace removed\<close>
  "strip s = rev (dropWhile isspace (rev (dropWhile isspace s)))"

function sub_ws :: "string \<Rightarrow> string" where
  \<comment> \<open>\<open>re.sub(r'\s+', ' ', text)\<close>: every maximal run of whitespace becomes one space\<close>
  "sub_ws [] = []"
| "sub_ws (c # cs) =
     (if isspace c then CHR '' '' # sub_ws (dropWhile isspace cs) else c # sub_ws cs)"
  by pat_completeness auto
termination
  by (relation "measure length") (auto simp: le_imp_less_Suc length_dropWhile_le)

fun startswith :: "string \<Rightarrow> string \<Rightarrow> bool" where
  \<comment> \<open>\<open>s.startswith(p)\<close>, written \<open>startswith s p\<close>\<close>
  "startswith s [] = True"
| "startswith [] (p # ps) = False"
| "startswith (c # cs) (p # ps) = (c = p \<and> startswith cs ps)"

fun contains :: "string \<Rightarrow> string \<Rightarrow> bool" where
  \<comment> \<open>\<open>p in s\<close> for strings, written \<open>contains s p\<close>\<close>
  "contains [] p = (p = [])"
| "contains (c # cs) p = (startswith (c # cs) p \<or> contains cs p)"

definition endswith :: "string \<Rightarrow> string \<Rightarrow> bool" where
  "endswith s p = startswith (rev s) (rev p)"

definition digit_char :: "nat \<Rightarrow> char" where
  "digit_char d = ''0123456789'' ! d"

function str_nat :: "nat \<Rightarrow> string" where
  "str_nat n = (if n < 10 then [digit_char n] else str_nat (n div 10) @ [digit_char (n mod 10)])"
  by pat_completeness auto
termination
  by (relation "measure id") auto

declare str_nat.simps [simp del]

definition str_int :: "int \<Rightarrow> string" where
  \<comment> \<open>\<open>str(i)\<close> for a Python int, as the f-string \<open>f"H{...}"\<close> renders it\<close>
  "str_int i = (if i < 0 then CHR ''-'' # str_nat (nat (- i)) else str_nat (nat i))"

section \<open>Data of the heuristic engine\<close>

text \<open>One element of \<open>spans_data\<close>: the dict built for every non-empty span.\<close>

record span_info =
  si_text :: string
  si_font_size :: rat
  si_font_name :: string
  si_bold :: bool
  si_page :: int
  si_y_pos :: rat

text \<open>One element of the outline: the dict with keys \<open>level\<close>, \<open>text\<close>, \<open>page\<close>.\<close>

record outline_entry =
  e_level :: string
  e_text :: string
  e_page :: int

type_synonym level_map = "rat \<rightharpoonup> string"

section \<open>\<open>detect_heading_levels\<close>\<close>

fun collect_font_sizes :: "span_info list \<Rightarrow> rat list \<Rightarrow> rat list" where
  \<comment> \<open>the first loop: \<open>if span_info["font_size"]: font_sizes.append(...)\<close>;
      a float is truthy unless it is zero\<close>
  "collect_font_sizes [] font_sizes = font_sizes"
| "collect_font_sizes (s # ss) font_sizes =
     (if si_font_size s \<noteq> 0 then collect_font_sizes ss (font_sizes @ [si_font_size s])
      else collect_font_sizes ss font_sizes)"

definition level_label :: "nat \<Rightarrow> string" where
  \<comment> \<open>the \<open>if i == 0 ... elif ... else\<close> chain\<close>
  "level_label i =
     (if i = 0 then ''H1''
      else if i = 1 then ''H2''
      else if i = 2 then ''H3''
      else if i = 3 then ''H4''
      else if i = 4 then ''H5''
      else ''H6'')"

fun assign_levels :: "(nat \<times> rat) list \<Rightarrow> level_map \<Rightarrow> level_map" where
  \<comment> \<open>\<open>for i, size in enumerate(unique_sizes[:6]): level_mapping[size] = ...\<close>\<close>
  "assign_levels [] level_mapping = level_mapping"
| "assign_levels ((i, sz) # rest) level_mapping =
     assign_levels rest (level_mapping(sz \<mapsto> level_label i))"

definition detect_heading_levels :: "span_info list \<Rightarrow> level_map" where
  "detect_heading_levels spans_data =
     (let font_sizes = collect_font_sizes spans_data []
      in if font_sizes = [] then Map.empty
         else let unique_sizes = rev (sort (remdups font_sizes))
              in assign_levels (enumerate 0 (take 6 unique_sizes)) Map.empty)"

section \<open>\<open>is_likely_heading\<close>\<close>

definition match_numbered :: "string \<Rightarrow> bool" where
  \<comment> \<open>\<open>re.match(r'^\d+\.?\s+', text)\<close>\<close>
  "match_numbered s =
     (case s of
        [] \<Rightarrow> False
      | c # _ \<Rightarrow>
          isdigit c \<and>
          (let r = dropWhile isdigit s;
               r' = (case r of [] \<Rightarrow> r | d # t \<Rightarrow> if d = CHR ''.'' then t else r)
           in case r' of [] \<Rightarrow> False | w # _ \<Rightarrow> isspace w))"

definition match_capitalized :: "string \<Rightarrow> bool" where
  \<comment> \<open>\<open>re.match(r'^[A-Z][a-z]+', text)\<close>\<close>
  "match_capitalized s = (case s of a # b # _ \<Rightarrow> is_AZ a \<and> is_az b | _ \<Rightarrow> False)"

definition match_all_caps :: "string \<Rightarrow> bool" where
  \<comment> \<open>\<open>re.match(r'^[A-Z\s]+$', text)\<close>\<close>
  "match_all_caps s = (s \<noteq> [] \<and> list_all (\<lambda>c. is_AZ c \<or> isspace c) s)"

definition match_heading_word :: "string \<Rightarrow> bool" where
  \<comment> \<open>\<open>re.match(r'^(Chapter|Section|Part|Appendix)', text)\<close>\<close>
  "match_heading_word s =
     (startswith s ''Chapter'' \<or> startswith s ''Section'' \<or> startswith s ''Part''
      \<or> startswith s ''Appendix'')"

definition heading_patterns :: "(string \<Rightarrow> bool) list" where
  "heading_patterns = [match_numbered, match_capitalized, match_all_caps, match_heading_word]"

fun any_pattern :: "(string \<Rightarrow> bool) list \<Rightarrow> string \<Rightarrow> bool" where
  \<comment> \<open>\<open>for pattern in heading_patterns: if re.match(pattern, text): return True\<close>\<close>
  "any_pattern [] s = False"
| "any_pattern (p # ps) s = (if p s then True else any_pattern ps s)"

definition is_likely_heading :: "string \<Rightarrow> rat \<Rightarrow> bool \<Rightarrow> level_map \<Rightarrow> bool" where
  "is_likely_heading text0 font_size is_bold level_mapping =
     (if level_mapping font_size \<noteq> None then
        (let s = strip text0
         in if length s > 200 then False
            else if any_pattern heading_patterns s then True
            else if is_bold \<and> 5 \<le> length s \<and> length s \<le> 100 then True
            else True)
      else False)"

section \<open>The parsed document\<close>

text \<open>
  What the parser (\<open>fitz\<close>) hands to the program: the metadata title, the table of
  contents as \<open>get_toc()\<close> returns it (level, title, page), and for every page the
  result of \<open>get_text("dict")\<close>, a list of blocks of lines of spans. A call into the
  parser may raise; that is the value \<open>Inl\<close>.
\<close>

datatype error = ParserError | KeyError | OSError

record span =
  span_text :: string
  span_size :: rat
  span_font :: string
  span_bbox1 :: rat

record text_line =
  line_spans :: "span list"
  line_bbox1 :: rat

record block =
  block_type :: int
  block_lines :: "text_line list"

record document =
  metadata_title :: "string option"
  toc :: "(int \<times> string \<times> int) list"
  pages :: "(error + block list) list"

section \<open>\<open>extract_title_from_pdf\<close>\<close>

record candidate =
  cand_text :: string
  cand_font_size :: rat
  cand_y_pos :: rat

fun title_line_loop :: "span list \<Rightarrow> string \<times> rat \<Rightarrow> string \<times> rat" where
  \<comment> \<open>\<open>for span in line["spans"]\<close>, on the pair (\<open>line_text\<close>, \<open>max_font_size\<close>)\<close>
  "title_line_loop [] acc = acc"
| "title_line_loop (sp # sps) (line_text, max_font_size) =
     (let t = strip (span_text sp)
      in if t \<noteq> [] then title_line_loop sps (line_text @ t @ '' '', max max_font_size (span_size sp))
         else title_line_loop sps (line_text, max_font_size))"

definition line_candidate :: "text_line \<Rightarrow> candidate list" where
  \<comment> \<open>the body of \<open>for line in block["lines"]\<close>: what the line appends to \<open>title_candidates\<close>\<close>
  "line_candidate li =
     (case title_line_loop (line_spans li) ([], 0) of
        (line_text0, max_font_size) \<Rightarrow>
          (let line_text = strip line_text0
           in if line_text \<noteq> [] \<and> length line_text > 3
              then [\<lparr>cand_text = line_text, cand_font_size = max_font_size,
                     cand_y_pos = line_bbox1 li\<rparr>]
              else []))"

fun title_lines_loop :: "text_line list \<Rightarrow> candidate list \<Rightarrow> candidate list" where
  "title_lines_loop [] title_candidates = title_candidates"
| "title_lines_loop (li # lis) title_candidates =
     title_lines_loop lis (title_candidates @ line_candidate li)"

fun title_blocks_loop :: "block list \<Rightarrow> candidate list \<Rightarrow> candidate list" where
  \<comment> \<open>\<open>for block in text_dict["blocks"]\<close>, skipping image blocks\<close>
  "title_blocks_loop [] title_candidates = title_candidates"
| "title_blocks_loop (b # bs) title_candidates =
     (if block_type b \<noteq> 0 then title_blocks_loop bs title_candidates
      else title_blocks_loop bs (title_lines_loop (block_lines b) title_candidates))"

fun first_substantial :: "candidate list \<Rightarrow> string option" where
  \<comment> \<open>\<open>for candidate in title_candidates: if len(candidate["text"]) >= 10: return ...\<close>\<close>
  "first_substantial [] = None"
| "first_substantial (c # cs) =
     (if length (cand_text c) \<ge> 10 then Some (cand_text c) else first_substantial cs)"

definition title_sort_key :: "candidate \<Rightarrow> rat \<times> rat" where
  \<comment> \<open>\<open>lambda x: (x["y_pos"], -x["font_size"])\<close>; tuples compare lexicographically\<close>
  "title_sort_key x = (cand_y_pos x, - cand_font_size x)"

definition first_page_title :: "document \<Rightarrow> error + string" where
  \<comment> \<open>the fallback of \<open>extract_title_from_pdf\<close>; \<open>list.sort\<close> is a stable sort\<close>
  "first_page_title doc =
     (case pages doc of
        [] \<Rightarrow> Inr ''Untitled Document''
      | p # _ \<Rightarrow>
          (case p of
             Inl e \<Rightarrow> Inl e
           | Inr blocks \<Rightarrow>
               (let title_candidates = sort_key title_sort_key (title_blocks_loop blocks [])
                in case first_substantial title_candidates of
                     Some t \<Rightarrow> Inr t
                   | None \<Rightarrow>
                       (case title_candidates of
                          c # _ \<Rightarrow> Inr (cand_text c)
                        | [] \<Rightarrow> Inr ''Untitled Document''))))"

definition title_of_document :: "document \<Rightarrow> error + string" where
  \<comment> \<open>\<open>if metadata.get("title") and metadata["title"].strip(): return ...\<close>, else the fallback\<close>
  "title_of_document doc =
     (case metadata_title doc of
        None \<Rightarrow> first_page_title doc
      | Some t \<Rightarrow> if t \<noteq> [] \<and> strip t \<noteq> [] then Inr (strip t) else first_page_title doc)"

definition extract_title_from_pdf :: "(string \<Rightarrow> error + document) \<Rightarrow> string \<Rightarrow> error + string" where
  \<comment> \<open>\<open>fitz_open\<close> is \<open>fitz.open\<close>: it may raise\<close>
  "extract_title_from_pdf fitz_open pdf_path =
     (case fitz_open pdf_path of Inl e \<Rightarrow> Inl e | Inr doc \<Rightarrow> title_of_document doc)"

section \<open>\<open>extract_outline_from_pdf\<close>\<close>

fun toc_loop :: "(int \<times> string \<times> int) list \<Rightarrow> outline_entry list \<Rightarrow> outline_entry list" where
  \<comment> \<open>\<open>for item in toc: ... outline.append(...)\<close>\<close>
  "toc_loop [] outline = outline"
| "toc_loop ((lvl, title, page_num) # items) outline =
     toc_loop items
       (outline @ [\<lparr>e_level = ''H'' @ str_int (min lvl 6), e_text = strip title,
                     e_page = page_num\<rparr>])"

definition is_bold_font :: "string \<Rightarrow> bool" where
  \<comment> \<open>\<open>"Bold" in span["font"] or "bold" in span["font"].lower()\<close>\<close>
  "is_bold_font f = (contains f ''Bold'' \<or> contains (lower f) ''bold'')"

fun scan_spans :: "int \<Rightarrow> span list \<Rightarrow> span_info list \<Rightarrow> span_info list" where
  \<comment> \<open>\<open>for span in line["spans"]\<close> of the fallback, on page index \<open>page_num\<close>\<close>
  "scan_spans page_num [] spans_data = spans_data"
| "scan_spans page_num (sp # sps) spans_data =
     (let t = strip (span_text sp)
      in if t = [] then scan_spans page_num sps spans_data
         else scan_spans page_num sps
                (spans_data @ [\<lparr>si_text = t, si_font_size = span_size sp,
                                 si_font_name = span_font sp, si_bold = is_bold_font (span_font sp),
                                 si_page = page_num + 1, si_y_pos = span_bbox1 sp\<rparr>]))"

fun scan_lines :: "int \<Rightarrow> text_line list \<Rightarrow> span_info list \<Rightarrow> span_info list" where
  "scan_lines page_num [] spans_data = spans_data"
| "scan_lines page_num (li # lis) spans_data =
     scan_lines page_num lis (scan_spans page_num (line_spans li) spans_data)"

fun scan_blocks :: "int \<Rightarrow> block list \<Rightarrow> span_info list \<Rightarrow> span_info list" where
  "scan_blocks page_num [] spans_data = spans_data"
| "scan_blocks page_num (b # bs) spans_data =
     (if block_type b \<noteq> 0 then scan_blocks page_num bs spans_data
      else scan_blocks page_num bs (scan_lines page_num (block_lines b) spans_data))"

fun scan_pages :: "int \<Rightarrow> (error + block list) list \<Rightarrow> span_info list \<Rightarrow> error + span_info list" where
  \<comment> \<open>\<open>for page_num in range(len(doc))\<close>; the first argument is \<open>page_num\<close>\<close>
  "scan_pages page_num [] spans_data = Inr spans_data"
| "scan_pages page_num (p # ps) spans_data =
     (case p of
        Inl e \<Rightarrow> Inl e
      | Inr blocks \<Rightarrow> scan_pages (page_num + 1) ps (scan_blocks page_num blocks spans_data))"

type_synonym heading_state = "outline_entry list \<times> (string \<times> int) set"

definition heading_key :: "span_info \<Rightarrow> string \<times> int" where
  \<comment> \<open>\<open>(text.lower(), span_info["page"])\<close> with \<open>text = span_info["text"].strip()\<close>\<close>
  "heading_key s = (lower (strip (si_text s)), si_page s)"

definition heading_step :: "level_map \<Rightarrow> span_info \<Rightarrow> heading_state \<Rightarrow> error + heading_state" where
  \<comment> \<open>the body of \<open>for span_info in spans_data\<close>, on the pair (\<open>outline\<close>, \<open>seen_headings\<close>);
      \<open>level_mapping[...]\<close> raises \<open>KeyError\<close> on a missing key\<close>
  "heading_step level_mapping s st =
     (case st of (outline, seen_headings) \<Rightarrow>
        if is_likely_heading (si_text s) (si_font_size s) (si_bold s) level_mapping then
          (let t = strip (si_text s)
           in if heading_key s \<in> seen_headings then Inr (outline, seen_headings)
              else (let seen' = insert (heading_key s) seen_headings;
                        t' = sub_ws t
                    in if length t' \<ge> 3 then
                         (case level_mapping (si_font_size s) of
                            None \<Rightarrow> Inl KeyError
                          | Some lv \<Rightarrow>
                              Inr (outline @ [\<lparr>e_level = lv, e_text = t', e_page = si_page s\<rparr>],
                                   seen'))
                       else Inr (outline, seen')))
        else Inr (outline, seen_headings))"

fun heading_loop :: "level_map \<Rightarrow> span_info list \<Rightarrow> heading_state \<Rightarrow> error + heading_state" where
  "heading_loop level_mapping [] st = Inr st"
| "heading_loop level_mapping (s # ss) st =
     (case heading_step level_mapping s st of
        Inl e \<Rightarrow> Inl e
      | Inr st' \<Rightarrow> heading_loop level_mapping ss st')"

definition heuristic_outline :: "span_info list \<Rightarrow> error + outline_entry list" where
  \<comment> \<open>the fallback after the scan: level detection, the heading loop, and
      \<open>outline.sort(key=lambda x: x["page"])\<close>, a stable sort\<close>
  "heuristic_outline spans_data =
     (let level_mapping = detect_heading_levels spans_data
      in case heading_loop level_mapping spans_data ([], {}) of
           Inl e \<Rightarrow> Inl e
         | Inr (outline, seen_headings) \<Rightarrow> Inr (sort_key e_page outline))"

definition outline_of_document :: "document \<Rightarrow> error + outline_entry list" where
  "outline_of_document doc =
     (if toc doc \<noteq> [] then Inr (toc_loop (toc doc) [])
      else (case scan_pages 0 (pages doc) [] of
              Inl e \<Rightarrow> Inl e
            | Inr spans_data \<Rightarrow> heuristic_outline spans_data))"

definition extract_outline_from_pdf ::
  "(string \<Rightarrow> error + document) \<Rightarrow> string \<Rightarrow> error + outline_entry list" where
  "extract_outline_from_pdf fitz_open pdf_path =
     (case fitz_open pdf_path of Inl e \<Rightarrow> Inl e | Inr doc \<Rightarrow> outline_of_document doc)"

section \<open>\<open>process_single_pdf\<close> and \<open>process_all_pdfs\<close>\<close>

text \<open>The dict that is serialised: keys \<open>title\<close> and \<open>outline\<close>.\<close>

record output_data =
  out_title :: string
  out_outline :: "outline_entry list"

text \<open>
  The file system maps a path to the content of the file there: the JSON documents
  dumped into it since it was last opened for writing. \<open>open(path, "w")\<close> creates or
  truncates the file; \<open>json.dump\<close> appends one document to it.
\<close>

type_synonym files = "string \<rightharpoonup> output_data list"

text \<open>
  The world outside the program: \<open>fitz.open\<close>, whether a path can be opened for
  writing, whether \<open>os.makedirs\<close> succeeds, and \<open>os.listdir\<close>.
\<close>

record world =
  w_fitz_open :: "string \<Rightarrow> error + document"
  w_writable :: "string \<Rightarrow> bool"
  w_makedirs :: "string \<Rightarrow> bool"
  w_listdir :: "string \<Rightarrow> error + string list"

definition open_w :: "world \<Rightarrow> string \<Rightarrow> files \<Rightarrow> error + files" where
  \<comment> \<open>\<open>open(output_path, "w", encoding="utf-8")\<close>\<close>
  "open_w w path fs = (if w_writable w path then Inr (fs(path \<mapsto> [])) else Inl OSError)"

definition json_dump :: "output_data \<Rightarrow> string \<Rightarrow> files \<Rightarrow> files" where
  \<comment> \<open>\<open>json.dump(data, f, ...)\<close> on the file opened at \<open>path\<close>\<close>
  "json_dump d path fs = fs(path \<mapsto> (case fs path of None \<Rightarrow> [] | Some ds \<Rightarrow> ds) @ [d])"

definition write_steps :: "world \<Rightarrow> string \<Rightarrow> output_data \<Rightarrow> files \<Rightarrow> files list \<times> (error + unit)" where
  \<comment> \<open>\<open>with open(...) as f: json.dump(...)\<close>: the file systems after the open and after
      the dump, and whether the statement raised\<close>
  "write_steps w path d fs =
     (case open_w w path fs of
        Inl e \<Rightarrow> ([], Inl e)
      | Inr fs1 \<Rightarrow> ([fs1, json_dump d path fs1], Inr ()))"

definition error_output :: output_data where
  "error_output = \<lparr>out_title = ''Processing Error'', out_outline = []\<rparr>"

definition try_steps :: "world \<Rightarrow> string \<Rightarrow> string \<Rightarrow> files \<Rightarrow> files list \<times> (error + unit)" where
  \<comment> \<open>the \<open>try\<close> block of \<open>process_single_pdf\<close>\<close>
  "try_steps w pdf_path output_path fs =
     (case extract_title_from_pdf (w_fitz_open w) pdf_path of
        Inl e \<Rightarrow> ([], Inl e)
      | Inr title \<Rightarrow>
          (case extract_outline_from_pdf (w_fitz_open w) pdf_path of
             Inl e \<Rightarrow> ([], Inl e)
           | Inr outl \<Rightarrow>
               write_steps w output_path \<lparr>out_title = title, out_outline = outl\<rparr> fs))"

definition process_single_pdf_steps ::
  "world \<Rightarrow> string \<Rightarrow> string \<Rightarrow> files \<Rightarrow> files list \<times> (error + bool)" where
  \<comment> \<open>the file systems \<open>process_single_pdf\<close> goes through, one after each file operation,
      and what it returns (\<open>Inl\<close>: the exception it lets through)\<close>
  "process_single_pdf_steps w pdf_path output_path fs =
     (case try_steps w pdf_path output_path fs of
        (tr, Inr _) \<Rightarrow> (tr, Inr True)
      | (tr, Inl e) \<Rightarrow>
          (case write_steps w output_path error_output (last (fs # tr)) of
             (tr', Inl e') \<Rightarrow> (tr @ tr', Inl e')
           | (tr', Inr _) \<Rightarrow> (tr @ tr', Inr False)))"

definition process_single_pdf :: "world \<Rightarrow> string \<Rightarrow> string \<Rightarrow> files \<Rightarrow> files \<times> (error + bool)" where
  \<comment> \<open>the file system when the call ends, and its result\<close>
  "process_single_pdf w pdf_path output_path fs =
     (case process_single_pdf_steps w pdf_path output_path fs of
        (tr, r) \<Rightarrow> (last (fs # tr), r))"

definition path_join :: "string \<Rightarrow> string \<Rightarrow> string" where
  \<comment> \<open>\<open>os.path.join(a, b)\<close> on POSIX\<close>
  "path_join a b =
     (if startswith b ''/'' then b
      else if a = [] \<or> endswith a ''/'' then a @ b
      else a @ ''/'' @ b)"

function replace :: "string \<Rightarrow> string \<Rightarrow> string \<Rightarrow> string" where
  \<comment> \<open>\<open>s.replace(old, new)\<close> for a non-empty \<open>old\<close>: every occurrence, left to right\<close>
  "replace [] old new = []"
| "replace (c # cs) old new =
     (if startswith (c # cs) old then new @ replace (drop (length old - 1) cs) old new
      else c # replace cs old new)"
  by pat_completeness auto
termination
  by (relation "measure (\<lambda>(s, old, new). length s)") auto

definition output_path_of :: "string \<Rightarrow> string \<Rightarrow> string" where
  "output_path_of output_dir filename = path_join output_dir (replace filename ''.pdf'' ''.json'')"

fun batch_loop ::
  "world \<Rightarrow> string \<Rightarrow> string \<Rightarrow> string list \<Rightarrow> files \<times> nat \<times> nat \<Rightarrow> files \<times> (error + nat \<times> nat)" where
  \<comment> \<open>\<open>for filename in os.listdir(input_dir)\<close>, on the file system and the two counters\<close>
  "batch_loop w input_dir output_dir [] (fs, processed_count, error_count) =
     (fs, Inr (processed_count, error_count))"
| "batch_loop w input_dir output_dir (filename # rest) (fs, processed_count, error_count) =
     (if \<not> endswith (lower filename) ''.pdf''
      then batch_loop w input_dir output_dir rest (fs, processed_count, error_count)
      else (case process_single_pdf w (path_join input_dir filename)
                   (output_path_of output_dir filename) fs of
              (fs', Inl e) \<Rightarrow> (fs', Inl e)
            | (fs', Inr success) \<Rightarrow>
                if success
                then batch_loop w input_dir output_dir rest (fs', processed_count + 1, error_count)
                else batch_loop w input_dir output_dir rest (fs', processed_count, error_count + 1)))"

definition process_all_pdfs :: "world \<Rightarrow> string \<Rightarrow> string \<Rightarrow> files \<Rightarrow> files \<times> (error + nat \<times> nat)" where
  \<comment> \<open>the file system at the end, and the counts printed (\<open>Inl\<close>: the exception that ends the run)\<close>
  "process_all_pdfs w input_dir output_dir fs =
     (if \<not> w_makedirs w output_dir then (fs, Inl OSError)
      else (case w_listdir w input_dir of
              Inl e \<Rightarrow> (fs, Inl e)
            | Inr names \<Rightarrow> batch_loop w input_dir output_dir names (fs, 0, 0)))"

section \<open>Notions of the specification\<close>

definition spec_tree_entry :: "int \<times> string \<times> int \<Rightarrow> outline_entry" where
  \<comment> \<open>the explicit-tree path of the specification:
      \<open>{level: "H" + min(depth, 6), text: trim(label), page: page}\<close>\<close>
  "spec_tree_entry item =
     (case item of (depth, label, pg) \<Rightarrow>
        \<lparr>e_level = ''H'' @ str_int (min depth 6), e_text = strip label, e_page = pg\<rparr>)"

definition observed_sizes :: "span_info list \<Rightarrow> rat set" where
  \<comment> \<open>the distinct font sizes observed in the document\<close>
  "observed_sizes spans_data = si_font_size ` set spans_data"

definition level_number :: "string \<Rightarrow> nat" where
  \<comment> \<open>the number of a level label: 1 for \<open>H1\<close>, ..., 6 for \<open>H6\<close>\<close>
  "level_number lv = (case lv of [h, d] \<Rightarrow> of_char d - 48 | _ \<Rightarrow> 0)"

definition classified :: "level_map \<Rightarrow> span_info \<Rightarrow> bool" where
  \<comment> \<open>the run is classified as a heading\<close>
  "classified lm s = is_likely_heading (si_text s) (si_font_size s) (si_bold s) lm"

definition normalized_text :: "span_info \<Rightarrow> string" where
  \<comment> \<open>the text of the run, trimmed, with every run of whitespace collapsed to one space\<close>
  "normalized_text s = sub_ws (strip (si_text s))"

definition entry_of :: "level_map \<Rightarrow> span_info \<Rightarrow> outline_entry" where
  \<comment> \<open>the outline entry of a run\<close>
  "entry_of lm s =
     \<lparr>e_level = (case lm (si_font_size s) of None \<Rightarrow> [] | Some lv \<Rightarrow> lv),
      e_text = normalized_text s, e_page = si_page s\<rparr>"

fun emitted :: "level_map \<Rightarrow> (string \<times> int) set \<Rightarrow> span_info list \<Rightarrow> span_info list" where
  \<comment> \<open>the runs that get an outline entry, in scan order, when the keys in \<open>seen\<close> are
      taken already: a run classified as a heading whose key is new takes its key, and
      gets an entry when its normalized text has at least 3 characters\<close>
  "emitted lm seen [] = []"
| "emitted lm seen (s # ss) =
     (if classified lm s \<and> heading_key s \<notin> seen
      then (if length (normalized_text s) \<ge> 3 then [s] else [])
           @ emitted lm (insert (heading_key s) seen) ss
      else emitted lm seen ss)"

definition title_order :: "candidate \<Rightarrow> candidate \<Rightarrow> bool" where
  \<comment> \<open>\<open>a\<close> is not after \<open>b\<close> in the order (yPosition ascending, fontSize descending)\<close>
  "title_order a b \<longleftrightarrow>
     cand_y_pos a < cand_y_pos b
     \<or> (cand_y_pos a = cand_y_pos b \<and> cand_font_size b \<le> cand_font_size a)"

definition line_runs :: "text_line \<Rightarrow> span list" where
  \<comment> \<open>the runs of a line: its spans whose text is not empty after trimming\<close>
  "line_runs li = filter (\<lambda>sp. strip (span_text sp) \<noteq> []) (line_spans li)"

fun join_spaces :: "string list \<Rightarrow> string" where
  \<comment> \<open>the texts concatenated with single-space separators\<close>
  "join_spaces [] = []"
| "join_spaces [t] = t"
| "join_spaces (t # u # ts) = t @ '' '' @ join_spaces (u # ts)"

definition spec_line_text :: "text_line \<Rightarrow> string" where
  \<comment> \<open>the text of a line: the trimmed texts of its runs, joined by single spaces\<close>
  "spec_line_text li = join_spaces (map (\<lambda>sp. strip (span_text sp)) (line_runs li))"

definition spec_line_candidate :: "text_line \<Rightarrow> candidate" where
  \<comment> \<open>the candidate of a line: its text, the largest font size of its runs (the running
      maximum starts from 0, so it is not below 0), and the top of the line\<close>
  "spec_line_candidate li =
     \<lparr>cand_text = spec_line_text li,
      cand_font_size = Max (insert 0 (span_size ` set (line_runs li))),
      cand_y_pos = line_bbox1 li\<rparr>"

definition spec_candidates :: "block list \<Rightarrow> candidate list" where
  \<comment> \<open>the line candidates of a page, in the order of the page: one for every line of a
      text block whose text has more than 3 characters\<close>
  "spec_candidates blocks =
     concat (map (\<lambda>b. map spec_line_candidate
                         (filter (\<lambda>li. 3 < length (spec_line_text li)) (block_lines b)))
               (filter (\<lambda>b. block_type b = 0) blocks))"

definition spec_select_title :: "candidate list \<Rightarrow> string" where
  \<comment> \<open>steps 4 to 6 of the TitleSelector: the first candidate of length at least 10, else
      the first candidate, else the sentinel\<close>
  "spec_select_title cs =
     (case find (\<lambda>c. 10 \<le> length (cand_text c)) cs of
        Some c \<Rightarrow> cand_text c
      | None \<Rightarrow> (case cs of c # _ \<Rightarrow> cand_text c | [] \<Rightarrow> ''Untitled Document''))"

definition usable_title :: "document \<Rightarrow> bool" where
  \<comment> \<open>the metadata title is present and not empty after trimming\<close>
  "usable_title doc = (case metadata_title doc of None \<Rightarrow> False | Some t \<Rightarrow> strip t \<noteq> [])"

definition no_runs :: "block list \<Rightarrow> bool" where
  \<comment> \<open>the page has no run: every span of every text block is empty after trimming\<close>
  "no_runs blocks =
     (\<forall>b \<in> set blocks. block_type b = 0 \<longrightarrow>
        (\<forall>li \<in> set (block_lines b). \<forall>sp \<in> set (line_spans li). strip (span_text sp) = []))"

definition zero_runs :: "document \<Rightarrow> bool" where
  \<comment> \<open>every page can be read and has no run (a document with no page among them)\<close>
  "zero_runs doc = (\<forall>p \<in> set (pages doc). \<exists>blocks. p = Inr blocks \<and> no_runs blocks)"

definition is_pdf :: "string \<Rightarrow> bool" where
  \<comment> \<open>the file name test of the batch loop\<close>
  "is_pdf filename = endswith (lower filename) ''.pdf''"

definition document_result :: "world \<Rightarrow> string \<Rightarrow> output_data" where
  \<comment> \<open>the result of one document: title and outline when both are extracted, the
      sentinel when either extraction fails\<close>
  "document_result w pdf_path =
     (case extract_title_from_pdf (w_fitz_open w) pdf_path of
        Inl _ \<Rightarrow> \<lparr>out_title = ''Processing Error'', out_outline = []\<rparr>
      | Inr title \<Rightarrow>
          (case extract_outline_from_pdf (w_fitz_open w) pdf_path of
             Inl _ \<Rightarrow> \<lparr>out_title = ''Processing Error'', out_outline = []\<rparr>
           | Inr outl \<Rightarrow> \<lparr>out_title = title, out_outline = outl\<rparr>))"

definition extraction_fails :: "world \<Rightarrow> string \<Rightarrow> bool" where
  \<comment> \<open>title extraction or outline extraction raises\<close>
  "extraction_fails w pdf_path =
     (isl (extract_title_from_pdf (w_fitz_open w) pdf_path)
      \<or> isl (extract_outline_from_pdf (w_fitz_open w) pdf_path))"

section \<open>Example inputs\<close>

definition ex_toc_doc :: document where
  \<comment> \<open>a document with bookmarks (one of them twice) whose only page cannot be read\<close>
  "ex_toc_doc =
     \<lparr>metadata_title = None,
      toc = [(1, '' Intro '', 3), (9, ''Deep'', 4), (1, '' Intro '', 3)],
      pages = [Inl ParserError]\<rparr>"

definition mk_span_info :: "string \<Rightarrow> rat \<Rightarrow> int \<Rightarrow> span_info" where
  "mk_span_info t sz pg =
     \<lparr>si_text = t, si_font_size = sz, si_font_name = ''Helvetica'', si_bold = False,
      si_page = pg, si_y_pos = 0\<rparr>"

definition ex_sizes :: "span_info list" where
  \<comment> \<open>runs in eight distinct font sizes\<close>
  "ex_sizes =
     [mk_span_info ''body'' 10 1, mk_span_info ''Title'' 24 1, mk_span_info ''more'' 10 1,
      mk_span_info ''Part'' 16 2, mk_span_info ''a'' 14 2, mk_span_info ''b'' 12 2,
      mk_span_info ''c'' 18 2, mk_span_info ''d'' 20 3, mk_span_info ''e'' 8 3]"

definition ex_zero_size :: "span_info list" where
  \<comment> \<open>a run of font size 0.0 and a run of font size 12.0\<close>
  "ex_zero_size = [mk_span_info ''ghost'' 0 1, mk_span_info ''Title'' 12 1]"

definition mk_span :: "string \<Rightarrow> rat \<Rightarrow> rat \<Rightarrow> span" where
  "mk_span t sz y = \<lparr>span_text = t, span_size = sz, span_font = ''Helvetica'', span_bbox1 = y\<rparr>"

definition mk_line :: "span list \<Rightarrow> rat \<Rightarrow> text_line" where
  "mk_line sps y = \<lparr>line_spans = sps, line_bbox1 = y\<rparr>"

definition mk_block :: "text_line list \<Rightarrow> block" where
  "mk_block lis = \<lparr>block_type = 0, block_lines = lis\<rparr>"

definition ex_heur_doc :: document where
  \<comment> \<open>no bookmarks; the first page lists its lower line before its upper line\<close>
  "ex_heur_doc =
     \<lparr>metadata_title = None, toc = [],
      pages =
        [Inr [mk_block [mk_line [mk_span ''Lower part'' 20 700] 700,
                        mk_line [mk_span '' Upper  part '' 30 50, mk_span ''  '' 40 50] 50]],
         Inr [mk_block [mk_line [mk_span ''lower part'' 30 10, mk_span ''Ab'' 20 10,
                                 mk_span ''AB'' 20 10] 10]]]\<rparr>"

definition ex_heur_spans :: "span_info list" where
  \<comment> \<open>the runs of \<open>ex_heur_doc\<close> in scan order\<close>
  "ex_heur_spans =
     [\<lparr>si_text = ''Lower part'', si_font_size = 20, si_font_name = ''Helvetica'', si_bold = False,
        si_page = 1, si_y_pos = 700\<rparr>,
      \<lparr>si_text = ''Upper  part'', si_font_size = 30, si_font_name = ''Helvetica'', si_bold = False,
        si_page = 1, si_y_pos = 50\<rparr>,
      \<lparr>si_text = ''lower part'', si_font_size = 30, si_font_name = ''Helvetica'', si_bold = False,
        si_page = 2, si_y_pos = 10\<rparr>,
      \<lparr>si_text = ''Ab'', si_font_size = 20, si_font_name = ''Helvetica'', si_bold = False,
        si_page = 2, si_y_pos = 10\<rparr>,
      \<lparr>si_text = ''AB'', si_font_size = 20, si_font_name = ''Helvetica'', si_bold = False,
        si_page = 2, si_y_pos = 10\<rparr>]"

definition ex_ws_doc :: document where
  \<comment> \<open>one page, two runs whose texts differ in inner whitespace only\<close>
  "ex_ws_doc =
     \<lparr>metadata_title = None, toc = [],
      pages =
        [Inr [mk_block [mk_line [mk_span ''Part  One'' 20 100] 100,
                        mk_line [mk_span ''Part One'' 20 400] 400]]]\<rparr>"

definition ex_title_doc :: document where
  \<comment> \<open>a blank metadata title; three lines on the first page\<close>
  "ex_title_doc =
     \<lparr>metadata_title = Some ''  '', toc = [],
      pages =
        [Inr [mk_block [mk_line [mk_span ''Ab'' 10 0] 0,
                        mk_line [mk_span ''A Long Enough'' 20 5, mk_span '' Title '' 12 5] 5,
                        mk_line [mk_span ''Header'' 30 1] 1]]]\<rparr>"

definition ex_meta_doc :: document where
  \<comment> \<open>a metadata title, and a first page that cannot be read\<close>
  "ex_meta_doc = \<lparr>metadata_title = Some ''  My Report  '', toc = [], pages = [Inl ParserError]\<rparr>"

definition ex_scanned_doc :: document where
  \<comment> \<open>a scanned document: one page holding an image only, and one bookmark\<close>
  "ex_scanned_doc =
     \<lparr>metadata_title = None, toc = [(1, ''Intro'', 1)],
      pages = [Inr [\<lparr>block_type = 1, block_lines = []\<rparr>]]\<rparr>"

definition ex_blank_doc :: document where
  \<comment> \<open>a blank metadata title, no bookmarks, one page with an image and a blank span\<close>
  "ex_blank_doc =
     \<lparr>metadata_title = Some '' '', toc = [],
      pages = [Inr [\<lparr>block_type = 1, block_lines = []\<rparr>, mk_block [mk_line [mk_span ''  '' 12 0] 0]]]\<rparr>"

definition ex_world :: world where
  \<comment> \<open>a directory of three documents and a text file; \<open>c.pdf\<close> cannot be opened\<close>
  "ex_world =
     \<lparr>w_fitz_open = (\<lambda>p. if p = ''/in/a.pdf'' then Inr ex_meta_doc
                          else if p = ''/in/b.pdf'' then Inr ex_title_doc
                          else if p = ''/in/d.pdf'' then Inr ex_blank_doc
                          else Inl ParserError),
      w_writable = (\<lambda>p. True),
      w_makedirs = (\<lambda>p. True),
      w_listdir = (\<lambda>d. Inr [''a.pdf'', ''notes.txt'', ''b.pdf'', ''c.pdf''])\<rparr>"

definition ex_old_files :: files where
  \<comment> \<open>an output directory that holds the result of an earlier run\<close>
  "ex_old_files = [''/out/b.json'' \<mapsto> [\<lparr>out_title = ''Old Title'', out_outline = []\<rparr>]]"

section \<open>Properties\<close>

subsection \<open>The explicit tree\<close>

lemma toc_loop_map: "toc_loop items acc = acc @ map spec_tree_entry items"
  by (induction items arbitrary: acc) (auto simp: spec_tree_entry_def)

text \<open>
  C1. When the table of contents of a document is not empty, the outline is the table
  mapped entry by entry, in its order, to level \<open>"H" + min(depth, 6)\<close>, trimmed label and
  page: nothing is dropped and nothing is merged. The pages are not looked at: the
  outline is the same whatever the pages are, also pages that cannot be read.
\<close>

theorem explicit_tree_outline:
  assumes "fitz_open pdf_path = Inr doc" and "toc doc \<noteq> []"
  shows "extract_outline_from_pdf fitz_open pdf_path = Inr (map spec_tree_entry (toc doc))
         \<and> outline_of_document (doc\<lparr>pages := ps\<rparr>) = outline_of_document doc"
  using assms by (simp add: extract_outline_from_pdf_def outline_of_document_def toc_loop_map)

theorem explicit_tree_outline_witness:
  "extract_outline_from_pdf (\<lambda>p. Inr ex_toc_doc) ''a.pdf'' =
     Inr [\<lparr>e_level = ''H1'', e_text = ''Intro'', e_page = 3\<rparr>,
          \<lparr>e_level = ''H6'', e_text = ''Deep'', e_page = 4\<rparr>,
          \<lparr>e_level = ''H1'', e_text = ''Intro'', e_page = 3\<rparr>]
   \<and> outline_of_document (ex_toc_doc\<lparr>pages := []\<rparr>) = outline_of_document ex_toc_doc"
  using explicit_tree_outline [of "\<lambda>p. Inr ex_toc_doc" "''a.pdf''" ex_toc_doc "[]"]
  by (simp add: ex_toc_doc_def spec_tree_entry_def str_int_def str_nat.simps digit_char_def
      strip_def isspace_def)

subsection \<open>The heading classifier\<close>

text \<open>
  C2. \<open>is_likely_heading\<close> answers true exactly when the font size is a key of the level
  map and the trimmed text has at most 200 characters. Neither the patterns nor the
  bold flag occur on the right-hand side: they never change the answer.
\<close>

theorem heading_gate:
  "is_likely_heading text0 font_size is_bold level_mapping
     \<longleftrightarrow> font_size \<in> dom level_mapping \<and> length (strip text0) \<le> 200"
  by (auto simp: is_likely_heading_def Let_def)

theorem heading_gate_witness:
  "is_likely_heading ''  ???  '' 12 False [12 \<mapsto> ''H1'']
   \<and> \<not> is_likely_heading ''Chapter 1'' 11 True [12 \<mapsto> ''H1'']
   \<and> \<not> is_likely_heading (replicate 201 CHR ''A'') 12 True [12 \<mapsto> ''H1'']"
  using heading_gate [of "''  ???  ''" 12 False "[12 \<mapsto> ''H1'']"]
    heading_gate [of "''Chapter 1''" 11 True "[12 \<mapsto> ''H1'']"]
    heading_gate [of "replicate 201 CHR ''A''" 12 True "[12 \<mapsto> ''H1'']"]
  by (simp add: strip_def isspace_def)

subsection \<open>The level map\<close>

lemma collect_font_sizes_eq:
  "collect_font_sizes ss acc = acc @ filter (\<lambda>z. z \<noteq> 0) (map si_font_size ss)"
  by (induction ss arbitrary: acc) auto

lemma set_collect_font_sizes:
  "set (collect_font_sizes ss []) = observed_sizes ss - {0}"
  by (auto simp: collect_font_sizes_eq observed_sizes_def)

lemma assign_levels_notin:
  "k \<notin> set xs \<Longrightarrow> assign_levels (enumerate n xs) m k = m k"
  by (induction xs arbitrary: n m) auto

lemma assign_levels_nth:
  "distinct xs \<Longrightarrow> i < length xs \<Longrightarrow>
   assign_levels (enumerate n xs) m (xs ! i) = Some (level_label (n + i))"
proof (induction xs arbitrary: n m i)
  case Nil
  then show ?case by simp
next
  case (Cons x xs)
  show ?case
  proof (cases i)
    case 0
    with Cons.prems show ?thesis by (simp add: assign_levels_notin)
  next
    case (Suc j)
    have "assign_levels (enumerate (Suc n) xs) (m(x \<mapsto> level_label n)) (xs ! j)
            = Some (level_label (Suc n + j))"
      using Cons.prems Suc by (intro Cons.IH) auto
    then show ?thesis using Suc by simp
  qed
qed

lemma dom_assign_levels:
  "dom (assign_levels (enumerate n xs) m) = set xs \<union> dom m"
  by (induction xs arbitrary: n m) auto

lemma desc_larger_take:
  "sorted_wrt (\<lambda>a b. b < a) (xs :: rat list) \<Longrightarrow> i < length xs \<Longrightarrow>
   {b \<in> set xs. xs ! i < b} = set (take i xs)"
proof (induction xs arbitrary: i)
  case Nil
  then show ?case by simp
next
  case (Cons x xs)
  show ?case
  proof (cases i)
    case 0
    with Cons.prems show ?thesis by (auto dest: order.asym)
  next
    case (Suc j)
    with Cons.prems have "{b \<in> set xs. xs ! j < b} = set (take j xs)" and "xs ! j < x"
      using Cons.IH [of j] by auto
    with Suc show ?thesis by auto
  qed
qed

lemma desc_distinct: "sorted_wrt (\<lambda>a b. b < a) xs \<Longrightarrow> distinct (xs :: rat list)"
  by (induction xs) auto

lemma unique_sizes_desc: "sorted_wrt (\<lambda>a b. b < a) (rev (sort (remdups (fs :: rat list))))"
proof -
  have "sorted (sort (remdups fs))" and "distinct (sort (remdups fs))" by simp_all
  then have "sorted_wrt (<) (sort (remdups fs))" by (simp add: strict_sorted_iff)
  then show ?thesis by (simp add: sorted_wrt_rev)
qed

lemma level_number_label: "i < 6 \<Longrightarrow> level_number (level_label i) = Suc i"
  by (auto simp: level_number_def level_label_def)

lemma level_map_core:
  fixes fs :: "rat list"
  defines "us \<equiv> rev (sort (remdups fs))"
  defines "m \<equiv> assign_levels (enumerate 0 (take 6 us)) Map.empty"
  shows "dom m = set (take 6 us)"
    and "card (dom m) = min (card (set fs)) 6"
    and "dom m \<subseteq> set fs"
    and "\<forall>a\<in>dom m. \<forall>b\<in>set fs - dom m. b < a"
    and "\<forall>a\<in>dom m. m a = Some (level_label (card {b \<in> set fs. a < b})) \<and> card {b \<in> set fs. a < b} < 6"
proof -
  have desc: "sorted_wrt (\<lambda>a b. b < a) us" unfolding us_def by (rule unique_sizes_desc)
  have dist: "distinct us" using desc by (rule desc_distinct)
  have set_us: "set us = set fs" by (simp add: us_def)
  have len_us: "length us = card (set fs)" using dist set_us by (metis distinct_card)
  show dom: "dom m = set (take 6 us)" by (simp add: m_def dom_assign_levels)
  have "distinct (take 6 us)" using dist by simp
  then have "card (set (take 6 us)) = length (take 6 us)" by (rule distinct_card)
  then show "card (dom m) = min (card (set fs)) 6" by (simp add: dom len_us)
  show "dom m \<subseteq> set fs" using set_take_subset [of 6 us] by (simp add: dom set_us)
  have split: "sorted_wrt (\<lambda>a b. b < a) (take 6 us @ drop 6 us)" using desc by simp
  have "\<forall>a\<in>set (take 6 us). \<forall>b\<in>set (drop 6 us). b < a"
    using split unfolding sorted_wrt_append by blast
  moreover have "set fs = set (take 6 us) \<union> set (drop 6 us)"
    using set_append [of "take 6 us" "drop 6 us"] by (simp add: set_us)
  ultimately show "\<forall>a\<in>dom m. \<forall>b\<in>set fs - dom m. b < a" by (auto simp: dom)
  show "\<forall>a\<in>dom m. m a = Some (level_label (card {b \<in> set fs. a < b})) \<and> card {b \<in> set fs. a < b} < 6"
  proof
    fix a assume "a \<in> dom m"
    then have "a \<in> set (take 6 us)" by (simp add: dom)
    then obtain i where i: "i < length (take 6 us)" and a: "take 6 us ! i = a"
      by (auto simp: in_set_conv_nth)
    then have i6: "i < 6" and il: "i < length us" and a': "us ! i = a" by auto
    have "m (take 6 us ! i) = Some (level_label (0 + i))"
      unfolding m_def using \<open>distinct (take 6 us)\<close> i by (rule assign_levels_nth)
    then have ma: "m a = Some (level_label i)" by (simp add: a)
    have "{b \<in> set us. us ! i < b} = set (take i us)" using desc il by (rule desc_larger_take)
    then have "card {b \<in> set fs. a < b} = card (set (take i us))" by (simp add: set_us a')
    also have "\<dots> = length (take i us)" using dist by (intro distinct_card) simp
    also have "\<dots> = i" using il by simp
    finally show "m a = Some (level_label (card {b \<in> set fs. a < b})) \<and> card {b \<in> set fs. a < b} < 6"
      using ma i6 by simp
  qed
qed

lemma detect_heading_levels_eq:
  "detect_heading_levels spans_data =
     assign_levels (enumerate 0 (take 6 (rev (sort (remdups (collect_font_sizes spans_data [])))))) Map.empty"
  by (simp add: detect_heading_levels_def Let_def)

text \<open>
  C4 (amended). Let \<open>S\<close> be the set of distinct observed font sizes other than zero (the
  truthiness test of the first loop skips a size of 0.0). The level map has
  \<open>min (card S) 6\<close> keys; they are sizes of \<open>S\<close>, and every size of \<open>S\<close> that is not a
  key is smaller than every key: the keys are the largest sizes. A key is mapped to the
  label whose index is the number of strictly larger sizes (the largest to \<open>H1\<close>, the
  second largest to \<open>H2\<close>, ...), so a strictly larger key has a strictly smaller level
  number. When \<open>S\<close> is empty the map is empty.
\<close>

theorem level_map_top_sizes:
  "card (dom (detect_heading_levels spans_data)) = min (card (observed_sizes spans_data - {0})) 6
   \<and> dom (detect_heading_levels spans_data) \<subseteq> observed_sizes spans_data - {0}
   \<and> (\<forall>a \<in> dom (detect_heading_levels spans_data).
         \<forall>b \<in> (observed_sizes spans_data - {0}) - dom (detect_heading_levels spans_data). b < a)
   \<and> (\<forall>a \<in> dom (detect_heading_levels spans_data).
         detect_heading_levels spans_data a
           = Some (level_label (card {b \<in> observed_sizes spans_data - {0}. a < b})))
   \<and> (\<forall>a \<in> dom (detect_heading_levels spans_data).
         \<forall>b \<in> dom (detect_heading_levels spans_data).
           a < b \<longrightarrow> level_number (the (detect_heading_levels spans_data b))
                       < level_number (the (detect_heading_levels spans_data a)))
   \<and> (observed_sizes spans_data - {0} = {} \<longrightarrow> detect_heading_levels spans_data = Map.empty)"
proof -
  define fs where "fs = collect_font_sizes spans_data []"
  define S where "S = observed_sizes spans_data - {0}"
  define m where "m = detect_heading_levels spans_data"
  have S: "set fs = S" by (simp add: fs_def S_def set_collect_font_sizes)
  have m: "m = assign_levels (enumerate 0 (take 6 (rev (sort (remdups fs))))) Map.empty"
    by (simp add: m_def fs_def detect_heading_levels_eq)
  have c1: "card (dom m) = min (card S) 6"
    and c2: "dom m \<subseteq> S"
    and c3: "\<forall>a\<in>dom m. \<forall>b\<in>S - dom m. b < a"
    and c4: "\<forall>a\<in>dom m. m a = Some (level_label (card {b \<in> S. a < b})) \<and> card {b \<in> S. a < b} < 6"
    using level_map_core [of fs] unfolding m S by blast+
  have c5: "\<forall>a\<in>dom m. \<forall>b\<in>dom m. a < b \<longrightarrow> level_number (the (m b)) < level_number (the (m a))"
  proof (intro ballI impI)
    fix a b assume a: "a \<in> dom m" and b: "b \<in> dom m" and ab: "a < b"
    have fin: "finite {c \<in> S. a < c}" using S [symmetric] by simp
    have "b \<in> S" using b c2 by blast
    then have "{c \<in> S. b < c} \<subset> {c \<in> S. a < c}" using ab by auto
    then have "card {c \<in> S. b < c} < card {c \<in> S. a < c}" using fin by (rule psubset_card_mono [rotated])
    moreover have "level_number (the (m a)) = Suc (card {c \<in> S. a < c})"
      using c4 a by (simp add: level_number_label)
    moreover have "level_number (the (m b)) = Suc (card {c \<in> S. b < c})"
      using c4 b by (simp add: level_number_label)
    ultimately show "level_number (the (m b)) < level_number (the (m a))" by simp
  qed
  have c6: "S = {} \<longrightarrow> m = Map.empty" using S by (auto simp: m)
  have c4': "\<forall>a\<in>dom m. m a = Some (level_label (card {b \<in> S. a < b}))" using c4 by blast
  show ?thesis using c1 c2 c3 c4' c5 c6 unfolding S_def m_def by blast
qed

lemma ex_sizes_map:
  "detect_heading_levels ex_sizes =
     [24 \<mapsto> ''H1'', 20 \<mapsto> ''H2'', 18 \<mapsto> ''H3'', 16 \<mapsto> ''H4'', 14 \<mapsto> ''H5'', 12 \<mapsto> ''H6'']"
  by (simp add: detect_heading_levels_def ex_sizes_def mk_span_info_def level_label_def)

theorem level_map_top_sizes_witness:
  "card (dom (detect_heading_levels ex_sizes)) = 6
   \<and> detect_heading_levels ex_sizes 24 = Some ''H1''
   \<and> detect_heading_levels ex_sizes 20 = Some ''H2''
   \<and> detect_heading_levels ex_sizes 12 = Some ''H6''
   \<and> detect_heading_levels ex_sizes 10 = None"
  using level_map_top_sizes [of ex_sizes]
  by (simp add: ex_sizes_map)

text \<open>
  The claim as stated counts every distinct observed size: with the sizes 0.0 and 12.0
  it promises two entries, and the map has one.
\<close>

theorem level_map_zero_size_counterexample:
  "card (observed_sizes ex_zero_size) = 2
   \<and> card (dom (detect_heading_levels ex_zero_size))
       \<noteq> min (card (observed_sizes ex_zero_size)) 6"
  by (simp add: detect_heading_levels_def ex_zero_size_def mk_span_info_def level_label_def
      observed_sizes_def)


subsection \<open>The heuristic path\<close>

lemma classified_in_map: "classified lm s \<Longrightarrow> \<exists>lv. lm (si_font_size s) = Some lv"
  by (auto simp: classified_def is_likely_heading_def split: if_splits)

lemma heading_step_eq:
  "heading_step lm s (out, seen) =
     Inr (if classified lm s \<and> heading_key s \<notin> seen
          then (out @ (if length (normalized_text s) \<ge> 3 then [entry_of lm s] else []),
                insert (heading_key s) seen)
          else (out, seen))"
  using classified_in_map [of lm s]
  by (auto simp: heading_step_def classified_def normalized_text_def entry_of_def Let_def)

lemma heading_loop_eq:
  "heading_loop lm ss (out, seen) =
     Inr (out @ map (entry_of lm) (emitted lm seen ss),
          seen \<union> heading_key ` {s \<in> set ss. classified lm s})"
proof (induction ss arbitrary: out seen)
  case Nil
  then show ?case by simp
next
  case (Cons s ss)
  show ?case
    by (auto simp: heading_step_eq Cons.IH)
qed

lemma emitted_subseq: "subseq (emitted lm seen ss) ss"
  by (induction ss arbitrary: seen) auto

lemma emitted_classified:
  "s \<in> set (emitted lm seen ss) \<Longrightarrow> classified lm s \<and> length (normalized_text s) \<ge> 3 \<and> heading_key s \<notin> seen"
  by (induction ss arbitrary: seen) (auto split: if_splits)

lemma emitted_distinct_keys: "distinct (map heading_key (emitted lm seen ss))"
proof (induction ss arbitrary: seen)
  case Nil
  then show ?case by simp
next
  case (Cons s ss)
  have "heading_key s \<notin> heading_key ` set (emitted lm (insert (heading_key s) seen) ss)"
    by (metis emitted_classified imageE insertI1)
  then show ?case using Cons.IH by auto
qed

lemma ex_heur_scan: "scan_pages 0 (pages ex_heur_doc) [] = Inr ex_heur_spans"
  by code_simp

lemma ex_heur_outline:
  "outline_of_document ex_heur_doc =
     Inr [\<lparr>e_level = ''H2'', e_text = ''Lower part'', e_page = 1\<rparr>,
          \<lparr>e_level = ''H1'', e_text = ''Upper part'', e_page = 1\<rparr>,
          \<lparr>e_level = ''H1'', e_text = ''lower part'', e_page = 2\<rparr>]"
  by code_simp

lemma heading_step_y: "heading_step lm (s\<lparr>si_y_pos := v\<rparr>) st = heading_step lm s st"
  by (cases st) (simp add: heading_step_def heading_key_def Let_def split: option.splits)

lemma heading_loop_y:
  "heading_loop lm (map (\<lambda>s. s\<lparr>si_y_pos := y s\<rparr>) ss) st = heading_loop lm ss st"
  by (induction ss arbitrary: st) (auto simp: heading_step_y split: sum.splits)

lemma detect_heading_levels_y:
  "detect_heading_levels (map (\<lambda>s. s\<lparr>si_y_pos := y s\<rparr>) ss) = detect_heading_levels ss"
  by (simp add: detect_heading_levels_def collect_font_sizes_eq comp_def)

lemma heuristic_outline_eq:
  "heuristic_outline spans_data =
     Inr (sort_key e_page
            (map (entry_of (detect_heading_levels spans_data))
               (emitted (detect_heading_levels spans_data) {} spans_data)))"
  by (simp add: heuristic_outline_def heading_loop_eq Let_def)

lemma heuristic_outline_y:
  "heuristic_outline (map (\<lambda>s. s\<lparr>si_y_pos := y s\<rparr>) ss) = heuristic_outline ss"
  by (simp add: heuristic_outline_def detect_heading_levels_y heading_loop_y)

lemma e_page_entry_of: "e_page (entry_of lm s) = si_page s"
  by (simp add: entry_of_def)

text \<open>
  C6. On the heuristic path (no bookmarks, every page readable) the outline is sorted by
  page: the pages are non-decreasing. The sort is stable and compares nothing but the
  page: for every page \<open>k\<close>, the entries of page \<open>k\<close> are the entries of the runs of page
  \<open>k\<close> that got one, in the order in which the scan met them (\<open>emitted\<close> is a subsequence
  of the scanned runs). The vertical position is not used: with any other vertical
  positions of the runs the outline is the same.
\<close>

theorem heuristic_outline_order:
  assumes "toc doc = []" and "scan_pages 0 (pages doc) [] = Inr spans_data"
  shows "\<exists>out. outline_of_document doc = Inr out
           \<and> sorted (map e_page out)
           \<and> (\<forall>k. filter (\<lambda>e. e_page e = k) out
                   = map (entry_of (detect_heading_levels spans_data))
                       (filter (\<lambda>s. si_page s = k)
                          (emitted (detect_heading_levels spans_data) {} spans_data)))
           \<and> subseq (emitted (detect_heading_levels spans_data) {} spans_data) spans_data
           \<and> heuristic_outline (map (\<lambda>s. s\<lparr>si_y_pos := y s\<rparr>) spans_data) = Inr out"
proof -
  define lm where "lm = detect_heading_levels spans_data"
  define entries where "entries = map (entry_of lm) (emitted lm {} spans_data)"
  define out where "out = sort_key e_page entries"
  have 1: "outline_of_document doc = Inr out"
    using assms by (simp add: outline_of_document_def heuristic_outline_eq out_def entries_def lm_def)
  have 2: "sorted (map e_page out)" by (simp add: out_def)
  have 3: "filter (\<lambda>e. e_page e = k) out
             = map (entry_of lm) (filter (\<lambda>s. si_page s = k) (emitted lm {} spans_data))" for k
  proof -
    have "filter (\<lambda>e. e_page e = k) out = filter (\<lambda>e. e_page e = k) entries"
      unfolding out_def by (rule sort_key_stable)
    also have "\<dots> = map (entry_of lm) (filter (\<lambda>s. si_page s = k) (emitted lm {} spans_data))"
      by (simp add: entries_def filter_map comp_def e_page_entry_of)
    finally show ?thesis .
  qed
  have 4: "subseq (emitted lm {} spans_data) spans_data" by (rule emitted_subseq)
  have 5: "heuristic_outline (map (\<lambda>s. s\<lparr>si_y_pos := y s\<rparr>) spans_data) = Inr out"
    unfolding heuristic_outline_y by (simp add: heuristic_outline_eq out_def entries_def lm_def)
  show ?thesis using 1 2 3 4 5 unfolding lm_def by blast
qed

theorem heuristic_outline_order_witness:
  "outline_of_document ex_heur_doc =
     Inr [\<lparr>e_level = ''H2'', e_text = ''Lower part'', e_page = 1\<rparr>,
          \<lparr>e_level = ''H1'', e_text = ''Upper part'', e_page = 1\<rparr>,
          \<lparr>e_level = ''H1'', e_text = ''lower part'', e_page = 2\<rparr>]
   \<and> sorted (map e_page
        [\<lparr>e_level = ''H2'', e_text = ''Lower part'', e_page = 1\<rparr>,
         \<lparr>e_level = ''H1'', e_text = ''Upper part'', e_page = 1\<rparr>,
         \<lparr>e_level = ''H1'', e_text = ''lower part'', e_page = 2\<rparr>])
   \<and> heuristic_outline (map (\<lambda>s. s\<lparr>si_y_pos := 0\<rparr>) ex_heur_spans) = outline_of_document ex_heur_doc"
proof -
  have t: "toc ex_heur_doc = []" by (simp add: ex_heur_doc_def)
  from heuristic_outline_order [OF t ex_heur_scan, of "\<lambda>s. 0"]
  show ?thesis by (auto simp: ex_heur_outline)
qed

subsection \<open>Deduplication\<close>


lemma strip_ends:
  assumes "strip s \<noteq> []"
  shows "\<not> isspace (hd (strip s)) \<and> \<not> isspace (last (strip s))"
proof -
  define t where "t = dropWhile isspace s"
  define u where "u = dropWhile isspace (rev t)"
  have s: "strip s = rev u" by (simp add: strip_def t_def u_def)
  have u: "u \<noteq> []" using assms s by simp
  then have t: "t \<noteq> []" by (auto simp: u_def)
  have "\<not> isspace (hd u)" using u unfolding u_def by (rule hd_dropWhile)
  moreover have "last u = last (rev t)" using u unfolding u_def
    by (metis takeWhile_dropWhile_id last_appendR)
  moreover have "\<not> isspace (hd t)" using t unfolding t_def by (rule hd_dropWhile)
  ultimately show ?thesis using u t by (simp add: s hd_rev last_rev)
qed








text \<open>
  C3. The key of the deduplication is taken from the trimmed text before its whitespace
  is normalized. Two runs of one page whose texts differ in inner whitespace only have
  different keys, and both get an entry, with the same normalized text and the same
  page: the outline of \<open>ex_ws_doc\<close> holds the same entry twice.
\<close>

theorem dedup_key_not_normalized:
  "outline_of_document ex_ws_doc =
     Inr [\<lparr>e_level = ''H1'', e_text = ''Part One'', e_page = 1\<rparr>,
          \<lparr>e_level = ''H1'', e_text = ''Part One'', e_page = 1\<rparr>]"
  by code_simp

subsection \<open>The title\<close>

lemma strip_Nil: "strip [] = []"
  by (simp add: strip_def)

lemma line_candidate_long: "c \<in> set (line_candidate li) \<Longrightarrow> 3 < length (cand_text c)"
  by (auto simp: line_candidate_def Let_def split: prod.splits if_splits)

lemma title_lines_loop_eq:
  "title_lines_loop lis acc = acc @ concat (map line_candidate lis)"
  by (induction lis arbitrary: acc) auto

lemma title_blocks_loop_eq:
  "title_blocks_loop bs acc =
     acc @ concat (map (\<lambda>b. if block_type b \<noteq> 0 then []
                             else concat (map line_candidate (block_lines b))) bs)"
  by (induction bs arbitrary: acc) (auto simp: title_lines_loop_eq)

lemma title_blocks_loop_long:
  "c \<in> set (title_blocks_loop bs []) \<Longrightarrow> 3 < length (cand_text c)"
  by (auto simp: title_blocks_loop_eq dest: line_candidate_long split: if_splits)

lemma first_substantial_find:
  "first_substantial cs = map_option cand_text (find (\<lambda>c. 10 \<le> length (cand_text c)) cs)"
  by (induction cs) auto

lemma title_key_le: "title_sort_key a \<le> title_sort_key b \<longleftrightarrow> title_order a b"
  by (auto simp: title_sort_key_def title_order_def)

lemma sorted_title_order: "sorted_wrt title_order (sort_key title_sort_key cs)"
proof -
  have "sorted (map title_sort_key (sort_key title_sort_key cs))" by simp
  then show ?thesis by (simp add: sorted_wrt_map title_key_le)
qed

lemma first_page_title_eq:
  "pages doc = Inr blocks # rest \<Longrightarrow>
   first_page_title doc
     = Inr (spec_select_title (sort_key title_sort_key (title_blocks_loop blocks [])))"
  by (simp add: first_page_title_def spec_select_title_def first_substantial_find Let_def
      split: option.splits list.splits)

lemma title_line_loop_eq:
  "title_line_loop sps (lt, mx) =
     (lt @ concat (map (\<lambda>sp. strip (span_text sp) @ '' '')
                     (filter (\<lambda>sp. strip (span_text sp) \<noteq> []) sps)),
      foldl max mx (map span_size (filter (\<lambda>sp. strip (span_text sp) \<noteq> []) sps)))"
  by (induction sps arbitrary: lt mx) (auto simp: Let_def)

lemma foldl_max_Max: "foldl max mx zs = Max (insert (mx :: rat) (set zs))"
proof (induction zs arbitrary: mx)
  case Nil
  then show ?case by simp
next
  case (Cons z zs)
  have "Max (insert (max mx z) (set zs)) = Max (insert mx (insert z (set zs)))"
  proof (cases "set zs = {}")
    case True
    then show ?thesis by (simp add: max.commute)
  next
    case False
    then show ?thesis by (simp add: max.assoc)
  qed
  then show ?case using Cons.IH [of "max mx z"] by simp
qed

lemma concat_join_spaces:
  "ts \<noteq> [] \<Longrightarrow> concat (map (\<lambda>t. t @ '' '') ts) = join_spaces ts @ '' ''"
  by (induction ts rule: join_spaces.induct) auto

lemma join_spaces_ends:
  assumes "ts \<noteq> []" and "\<forall>t \<in> set ts. t \<noteq> [] \<and> \<not> isspace (hd t) \<and> \<not> isspace (last t)"
  shows "join_spaces ts \<noteq> [] \<and> \<not> isspace (hd (join_spaces ts))
         \<and> \<not> isspace (last (join_spaces ts))"
  using assms by (induction ts rule: join_spaces.induct) auto

lemma strip_trailing_space:
  assumes "s \<noteq> []" and "\<not> isspace (hd s)" and "\<not> isspace (last s)"
  shows "strip (s @ '' '') = s"
proof -
  obtain a s' where s: "s = a # s'" using assms(1) by (cases s) auto
  have 1: "dropWhile isspace (s @ '' '') = s @ '' ''" using assms(2) s by simp
  have sp: "isspace CHR '' ''" by (simp add: isspace_def)
  have "rev s \<noteq> []" and "\<not> isspace (hd (rev s))" using assms by (simp_all add: hd_rev)
  then have 2: "dropWhile isspace (rev s) = rev s" by (cases "rev s") auto
  show ?thesis by (simp add: strip_def 1 sp 2)
qed

lemma strip_concat_runs:
  assumes "\<forall>t \<in> set ts. t \<noteq> [] \<and> \<not> isspace (hd t) \<and> \<not> isspace (last t)"
  shows "strip (concat (map (\<lambda>t. t @ '' '') ts)) = join_spaces ts"
proof (cases "ts = []")
  case True
  then show ?thesis by (simp add: strip_Nil)
next
  case False
  then show ?thesis
    using join_spaces_ends [OF False assms] by (simp add: concat_join_spaces strip_trailing_space)
qed

lemma line_text_eq:
  "strip (fst (title_line_loop (line_spans li) ([], 0))) = spec_line_text li"
proof -
  have "\<forall>t \<in> set (map (\<lambda>sp. strip (span_text sp)) (line_runs li)).
          t \<noteq> [] \<and> \<not> isspace (hd t) \<and> \<not> isspace (last t)"
    using strip_ends by (auto simp: line_runs_def)
  from strip_concat_runs [OF this] show ?thesis
    by (simp add: title_line_loop_eq spec_line_text_def line_runs_def comp_def map_concat)
qed

lemma line_candidate_eq:
  "line_candidate li =
     (if 3 < length (spec_line_text li) then [spec_line_candidate li] else [])"
proof -
  obtain lt mx where l: "title_line_loop (line_spans li) ([], 0) = (lt, mx)" by force
  have t: "strip lt = spec_line_text li" using line_text_eq [of li] l by simp
  have m: "mx = Max (insert 0 (span_size ` set (line_runs li)))"
    using l by (simp add: title_line_loop_eq foldl_max_Max line_runs_def)
  show ?thesis using t m by (auto simp: line_candidate_def l spec_line_candidate_def Let_def)
qed

lemma title_blocks_loop_spec: "title_blocks_loop blocks [] = spec_candidates blocks"
proof -
  have "concat (map line_candidate lis)
          = map spec_line_candidate (filter (\<lambda>li. 3 < length (spec_line_text li)) lis)" for lis
    by (induction lis) (auto simp: line_candidate_eq)
  then have "title_blocks_loop bs [] = spec_candidates bs" for bs
    unfolding title_blocks_loop_eq spec_candidates_def by (induction bs) auto
  then show ?thesis .
qed

lemma sort_key_title_stable:
  "filter (\<lambda>c. cand_y_pos c = y \<and> cand_font_size c = z) (sort_key title_sort_key cs)
     = filter (\<lambda>c. cand_y_pos c = y \<and> cand_font_size c = z) cs"
proof -
  have "(\<lambda>c. cand_y_pos c = y \<and> cand_font_size c = z) = (\<lambda>c. title_sort_key c = (y, - z))"
    by (auto simp: title_sort_key_def)
  then show ?thesis by (simp add: sort_key_stable)
qed

lemma spec_candidates_long: "c \<in> set (spec_candidates blocks) \<Longrightarrow> 3 < length (cand_text c)"
  by (auto simp: spec_candidates_def spec_line_candidate_def)

text \<open>
  C5. The title of a document that opens: when the metadata title is not empty after
  trimming, it is that title, trimmed, whatever the pages are. Otherwise, with no page,
  it is the sentinel; with a readable first page, the candidates are the lines of the
  text blocks of that page whose text (the trimmed texts of the runs of the line, joined
  by single spaces) has more than 3 characters, each with the largest font size of its
  runs and the top of the line. They are sorted by (vertical position ascending, font
  size descending), candidates equal in both keeping the order of the page, and the
  title is the text of the first candidate of length at least 10, else of the first
  candidate, else the sentinel.
\<close>

theorem title_selection:
  assumes "fitz_open pdf_path = Inr doc"
  shows "(\<forall>t. metadata_title doc = Some t \<and> strip t \<noteq> []
            \<longrightarrow> extract_title_from_pdf fitz_open pdf_path = Inr (strip t))
       \<and> (\<not> usable_title doc \<and> pages doc = []
            \<longrightarrow> extract_title_from_pdf fitz_open pdf_path = Inr ''Untitled Document'')
       \<and> (\<forall>blocks rest. \<not> usable_title doc \<and> pages doc = Inr blocks # rest
            \<longrightarrow> (\<forall>c \<in> set (spec_candidates blocks). 3 < length (cand_text c))
              \<and> sorted_wrt title_order (sort_key title_sort_key (spec_candidates blocks))
              \<and> (\<forall>y z. filter (\<lambda>c. cand_y_pos c = y \<and> cand_font_size c = z)
                           (sort_key title_sort_key (spec_candidates blocks))
                         = filter (\<lambda>c. cand_y_pos c = y \<and> cand_font_size c = z)
                             (spec_candidates blocks))
              \<and> extract_title_from_pdf fitz_open pdf_path
                  = Inr (spec_select_title
                           (sort_key title_sort_key (spec_candidates blocks))))"
proof -
  have fallback: "title_of_document doc = first_page_title doc" if "\<not> usable_title doc"
    using that by (auto simp: title_of_document_def usable_title_def split: option.splits)
  have 1: "extract_title_from_pdf fitz_open pdf_path = Inr (strip t)"
    if "metadata_title doc = Some t \<and> strip t \<noteq> []" for t
    using that assms by (auto simp: extract_title_from_pdf_def title_of_document_def strip_Nil)
  have 2: "extract_title_from_pdf fitz_open pdf_path = Inr ''Untitled Document''"
    if "\<not> usable_title doc \<and> pages doc = []"
    using that assms fallback by (simp add: extract_title_from_pdf_def first_page_title_def)
  have 3: "extract_title_from_pdf fitz_open pdf_path
             = Inr (spec_select_title (sort_key title_sort_key (spec_candidates blocks)))"
    if "\<not> usable_title doc \<and> pages doc = Inr blocks # rest" for blocks rest
    using that assms fallback
    by (simp add: extract_title_from_pdf_def first_page_title_eq title_blocks_loop_spec)
  show ?thesis
    using 1 2 3 spec_candidates_long sorted_title_order sort_key_title_stable by blast
qed

lemma ex_title_candidates:
  "spec_candidates
     [mk_block [mk_line [mk_span ''Ab'' 10 0] 0,
                mk_line [mk_span ''A Long Enough'' 20 5, mk_span '' Title '' 12 5] 5,
                mk_line [mk_span ''Header'' 30 1] 1]]
     = [\<lparr>cand_text = ''A Long Enough Title'', cand_font_size = 20, cand_y_pos = 5\<rparr>,
        \<lparr>cand_text = ''Header'', cand_font_size = 30, cand_y_pos = 1\<rparr>]"
  by code_simp

theorem title_selection_witness:
  "extract_title_from_pdf (\<lambda>p. Inr ex_meta_doc) ''m.pdf'' = Inr ''My Report''
   \<and> extract_title_from_pdf (\<lambda>p. Inr ex_title_doc) ''t.pdf'' = Inr ''A Long Enough Title''
   \<and> sort_key title_sort_key
        [\<lparr>cand_text = ''A Long Enough Title'', cand_font_size = 20, cand_y_pos = 5\<rparr>,
         \<lparr>cand_text = ''Header'', cand_font_size = 30, cand_y_pos = 1\<rparr>]
       = [\<lparr>cand_text = ''Header'', cand_font_size = 30, cand_y_pos = 1\<rparr>,
          \<lparr>cand_text = ''A Long Enough Title'', cand_font_size = 20, cand_y_pos = 5\<rparr>]
   \<and> extract_title_from_pdf (\<lambda>p. Inr (ex_title_doc\<lparr>pages := []\<rparr>)) ''e.pdf''
       = Inr ''Untitled Document''"
proof -
  have m: "metadata_title ex_meta_doc = Some ''  My Report  '' \<and> strip ''  My Report  '' \<noteq> []"
    by (simp add: ex_meta_doc_def strip_def isspace_def)
  have s: "strip ''  My Report  '' = ''My Report''" by (simp add: strip_def isspace_def)
  have u: "\<not> usable_title ex_title_doc" "\<not> usable_title (ex_title_doc\<lparr>pages := []\<rparr>)"
    by (simp_all add: usable_title_def ex_title_doc_def strip_def isspace_def)
  have p: "pages ex_title_doc =
      Inr [mk_block [mk_line [mk_span ''Ab'' 10 0] 0,
                        mk_line [mk_span ''A Long Enough'' 20 5, mk_span '' Title '' 12 5] 5,
                        mk_line [mk_span ''Header'' 30 1] 1]] # []"
    by (simp add: ex_title_doc_def)
  have k: "sort_key title_sort_key
        [\<lparr>cand_text = ''A Long Enough Title'', cand_font_size = 20, cand_y_pos = 5\<rparr>,
         \<lparr>cand_text = ''Header'', cand_font_size = 30, cand_y_pos = 1\<rparr>]
       = [\<lparr>cand_text = ''Header'', cand_font_size = 30, cand_y_pos = 1\<rparr>,
          \<lparr>cand_text = ''A Long Enough Title'', cand_font_size = 20, cand_y_pos = 5\<rparr>]"
    by (simp add: title_sort_key_def)
  have v: "spec_select_title
        [\<lparr>cand_text = ''Header'', cand_font_size = 30, cand_y_pos = 1\<rparr>,
         \<lparr>cand_text = ''A Long Enough Title'', cand_font_size = 20, cand_y_pos = 5\<rparr>]
       = ''A Long Enough Title''"
    by (simp add: spec_select_title_def)
  have 1: "extract_title_from_pdf (\<lambda>p. Inr ex_meta_doc) ''m.pdf'' = Inr ''My Report''"
    using title_selection [of "\<lambda>p. Inr ex_meta_doc" "''m.pdf''" ex_meta_doc] m s by auto
  have "extract_title_from_pdf (\<lambda>p. Inr ex_title_doc) ''t.pdf''
          = Inr (spec_select_title (sort_key title_sort_key (spec_candidates
              [mk_block [mk_line [mk_span ''Ab'' 10 0] 0,
                        mk_line [mk_span ''A Long Enough'' 20 5, mk_span '' Title '' 12 5] 5,
                        mk_line [mk_span ''Header'' 30 1] 1]])))"
    using title_selection [of "\<lambda>p. Inr ex_title_doc" "''t.pdf''" ex_title_doc] u p by blast
  then have 2: "extract_title_from_pdf (\<lambda>p. Inr ex_title_doc) ''t.pdf''
                  = Inr ''A Long Enough Title''"
    by (simp only: ex_title_candidates k v)
  have 3: "extract_title_from_pdf (\<lambda>p. Inr (ex_title_doc\<lparr>pages := []\<rparr>)) ''e.pdf''
             = Inr ''Untitled Document''"
    using title_selection [of "\<lambda>p. Inr (ex_title_doc\<lparr>pages := []\<rparr>)" "''e.pdf''"
        "ex_title_doc\<lparr>pages := []\<rparr>"] u
    by simp
  show ?thesis using 1 2 k 3 by blast
qed

subsection \<open>The orchestrator\<close>

lemma write_steps_ok:
  "w_writable w path \<Longrightarrow>
   write_steps w path d fs = ([fs(path \<mapsto> []), fs(path \<mapsto> [d])], Inr ())"
  by (simp add: write_steps_def open_w_def json_dump_def)

lemma write_steps_fail:
  "\<not> w_writable w path \<Longrightarrow> write_steps w path d fs = ([], Inl OSError)"
  by (simp add: write_steps_def open_w_def)

lemma try_steps_fails:
  "extraction_fails w pdf_path \<Longrightarrow> \<exists>e. try_steps w pdf_path output_path fs = ([], Inl e)"
  by (auto simp: extraction_fails_def try_steps_def isl_def split: sum.splits)

lemma document_result_fails:
  "extraction_fails w pdf_path \<Longrightarrow> document_result w pdf_path = error_output"
  by (auto simp: extraction_fails_def document_result_def error_output_def isl_def split: sum.splits)

lemma process_single_pdf_steps_ok:
  assumes "w_writable w output_path"
  shows "process_single_pdf_steps w pdf_path output_path fs =
           ([fs(output_path \<mapsto> []), fs(output_path \<mapsto> [document_result w pdf_path])],
            Inr (\<not> extraction_fails w pdf_path))"
proof (cases "extraction_fails w pdf_path")
  case True
  then obtain e where "try_steps w pdf_path output_path fs = ([], Inl e)"
    using try_steps_fails by blast
  then show ?thesis using True assms
    by (simp add: process_single_pdf_steps_def write_steps_ok document_result_fails)
next
  case False
  then obtain t ol where t: "extract_title_from_pdf (w_fitz_open w) pdf_path = Inr t"
    and ol: "extract_outline_from_pdf (w_fitz_open w) pdf_path = Inr ol"
    by (auto simp: extraction_fails_def isl_def) (metis sum.exhaust_sel isl_def)
  then show ?thesis using False assms
    by (simp add: process_single_pdf_steps_def try_steps_def write_steps_ok document_result_def)
qed

lemma process_single_pdf_ok:
  "w_writable w output_path \<Longrightarrow>
   process_single_pdf w pdf_path output_path fs =
     (fs(output_path \<mapsto> [document_result w pdf_path]), Inr (\<not> extraction_fails w pdf_path))"
  by (simp add: process_single_pdf_def process_single_pdf_steps_ok)

lemma process_single_pdf_unwritable:
  "extraction_fails w pdf_path \<Longrightarrow> \<not> w_writable w output_path \<Longrightarrow>
   process_single_pdf w pdf_path output_path fs = (fs, Inl OSError)"
  using try_steps_fails [of w pdf_path output_path fs]
  by (auto simp: process_single_pdf_def process_single_pdf_steps_def write_steps_fail)

lemma batch_loop_results:
  assumes "\<forall>n \<in> set names. is_pdf n \<longrightarrow> w_writable w (output_path_of output_dir n)"
    and "distinct (map (output_path_of output_dir) (filter is_pdf names))"
  shows "\<exists>fs' p' e'.
           batch_loop w input_dir output_dir names (fs, p, e) = (fs', Inr (p', e'))
         \<and> p' = p + length (filter (\<lambda>n. is_pdf n \<and> \<not> extraction_fails w (path_join input_dir n)) names)
         \<and> e' = e + length (filter (\<lambda>n. is_pdf n \<and> extraction_fails w (path_join input_dir n)) names)
         \<and> (\<forall>n \<in> set names. is_pdf n \<longrightarrow>
               fs' (output_path_of output_dir n) = Some [document_result w (path_join input_dir n)])
         \<and> (\<forall>x. x \<notin> output_path_of output_dir ` {n \<in> set names. is_pdf n} \<longrightarrow> fs' x = fs x)"
  using assms
proof (induction names arbitrary: fs p e)
  case Nil
  then show ?case by simp
next
  case (Cons n ns)
  show ?case
  proof (cases "is_pdf n")
    case False
    have "\<forall>n \<in> set ns. is_pdf n \<longrightarrow> w_writable w (output_path_of output_dir n)"
      and "distinct (map (output_path_of output_dir) (filter is_pdf ns))"
      using Cons.prems False by auto
    moreover have "batch_loop w input_dir output_dir (n # ns) (fs, p, e)
                     = batch_loop w input_dir output_dir ns (fs, p, e)"
      using False by (simp add: is_pdf_def)
    moreover have "{m \<in> set (n # ns). is_pdf m} = {m \<in> set ns. is_pdf m}"
      using False by auto
    ultimately show ?thesis using Cons.IH [of fs p e] False by simp
  next
    case True
    define fs1 where "fs1 = fs(output_path_of output_dir n \<mapsto> [document_result w (path_join input_dir n)])"
    define ok where "ok = (\<not> extraction_fails w (path_join input_dir n))"
    have wr: "w_writable w (output_path_of output_dir n)" using Cons.prems True by simp
    have step: "process_single_pdf w (path_join input_dir n) (output_path_of output_dir n) fs
                  = (fs1, Inr ok)"
      using wr by (simp add: process_single_pdf_ok fs1_def ok_def)
    have h: "\<forall>n \<in> set ns. is_pdf n \<longrightarrow> w_writable w (output_path_of output_dir n)"
      "distinct (map (output_path_of output_dir) (filter is_pdf ns))"
      using Cons.prems True by auto
    have fresh: "output_path_of output_dir n \<notin> output_path_of output_dir ` {m \<in> set ns. is_pdf m}"
      using Cons.prems(2) True by auto
    have unfold: "batch_loop w input_dir output_dir (n # ns) (fs, p, e)
            = batch_loop w input_dir output_dir ns
                (fs1, if ok then p + 1 else p, if ok then e else e + 1)"
      using True step by (simp add: is_pdf_def)
    from Cons.IH [OF h, of fs1 "if ok then p + 1 else p" "if ok then e else e + 1"]
    obtain fs' p' e' where
      r: "batch_loop w input_dir output_dir ns (fs1, if ok then p + 1 else p, if ok then e else e + 1)
            = (fs', Inr (p', e'))"
      and p': "p' = (if ok then p + 1 else p)
                 + length (filter (\<lambda>n. is_pdf n \<and> \<not> extraction_fails w (path_join input_dir n)) ns)"
      and e': "e' = (if ok then e else e + 1)
                 + length (filter (\<lambda>n. is_pdf n \<and> extraction_fails w (path_join input_dir n)) ns)"
      and files: "\<forall>m \<in> set ns. is_pdf m \<longrightarrow>
               fs' (output_path_of output_dir m) = Some [document_result w (path_join input_dir m)]"
      and other: "\<forall>x. x \<notin> output_path_of output_dir ` {m \<in> set ns. is_pdf m} \<longrightarrow> fs' x = fs1 x"
      by blast
    have n: "fs' (output_path_of output_dir n) = Some [document_result w (path_join input_dir n)]"
      using other fresh by (simp add: fs1_def)
    have other': "\<forall>x. x \<notin> output_path_of output_dir ` {m \<in> set (n # ns). is_pdf m} \<longrightarrow> fs' x = fs x"
    proof (intro allI impI)
      fix x assume x: "x \<notin> output_path_of output_dir ` {m \<in> set (n # ns). is_pdf m}"
      then have "x \<noteq> output_path_of output_dir n" using True by auto
      moreover have "x \<notin> output_path_of output_dir ` {m \<in> set ns. is_pdf m}" using x by auto
      ultimately show "fs' x = fs x" using other by (simp add: fs1_def)
    qed
    show ?thesis
      unfolding unfold r using p' e' files n other' True by (auto simp: ok_def)
  qed
qed

lemma scan_spans_blank:
  "\<forall>sp \<in> set sps. strip (span_text sp) = [] \<Longrightarrow> scan_spans n sps acc = acc"
  by (induction sps arbitrary: acc) auto

lemma scan_lines_blank:
  "\<forall>li \<in> set lis. \<forall>sp \<in> set (line_spans li). strip (span_text sp) = [] \<Longrightarrow>
   scan_lines n lis acc = acc"
  by (induction lis arbitrary: acc) (auto simp: scan_spans_blank)

lemma scan_blocks_blank: "no_runs bs \<Longrightarrow> scan_blocks n bs acc = acc"
  by (induction bs arbitrary: acc) (auto simp: no_runs_def scan_lines_blank)

lemma scan_pages_blank:
  "\<forall>p \<in> set ps. \<exists>blocks. p = Inr blocks \<and> no_runs blocks \<Longrightarrow> scan_pages n ps acc = Inr acc"
  by (induction ps arbitrary: n acc) (auto simp: scan_blocks_blank)

lemma title_line_loop_blank:
  "\<forall>sp \<in> set sps. strip (span_text sp) = [] \<Longrightarrow> title_line_loop sps acc = acc"
  by (induction sps arbitrary: acc) (auto split: prod.splits)

lemma line_candidate_blank:
  "\<forall>sp \<in> set (line_spans li). strip (span_text sp) = [] \<Longrightarrow> line_candidate li = []"
  by (simp add: line_candidate_def title_line_loop_blank strip_Nil)

lemma title_blocks_loop_blank: "no_runs bs \<Longrightarrow> title_blocks_loop bs [] = []"
  by (auto simp: title_blocks_loop_eq no_runs_def line_candidate_blank)

lemma heuristic_outline_Nil: "heuristic_outline [] = Inr []"
  by (simp add: heuristic_outline_def)

lemma first_page_title_blank: "zero_runs doc \<Longrightarrow> first_page_title doc = Inr ''Untitled Document''"
  by (cases "pages doc")
     (auto simp: first_page_title_def zero_runs_def title_blocks_loop_blank)

lemma ex_world_fails_a: "extraction_fails ex_world ''/in/a.pdf''"
  by code_simp

lemma ex_world_title_a: "extract_title_from_pdf (w_fitz_open ex_world) ''/in/a.pdf'' = Inr ''My Report''"
  by code_simp

lemma ex_world_ok_b: "\<not> extraction_fails ex_world ''/in/b.pdf''"
  by code_simp

lemma ex_world_result_b:
  "document_result ex_world ''/in/b.pdf'' =
     \<lparr>out_title = ''A Long Enough Title'',
      out_outline =
        [\<lparr>e_level = ''H2'', e_text = ''A Long Enough'', e_page = 1\<rparr>,
         \<lparr>e_level = ''H3'', e_text = ''Title'', e_page = 1\<rparr>,
         \<lparr>e_level = ''H1'', e_text = ''Header'', e_page = 1\<rparr>]\<rparr>"
  by code_simp

lemma ex_names_pdf:
  "is_pdf ''a.pdf''" "\<not> is_pdf ''notes.txt''" "is_pdf ''b.pdf''" "is_pdf ''c.pdf''"
  by code_simp+

lemma ex_out_paths:
  "output_path_of ''/out'' ''a.pdf'' = ''/out/a.json''"
  "output_path_of ''/out'' ''b.pdf'' = ''/out/b.json''"
  "output_path_of ''/out'' ''c.pdf'' = ''/out/c.json''"
  "path_join ''/in'' ''a.pdf'' = ''/in/a.pdf''"
  "path_join ''/in'' ''b.pdf'' = ''/in/b.pdf''"
  "path_join ''/in'' ''c.pdf'' = ''/in/c.pdf''"
  by code_simp+

text \<open>
  C7. When title extraction or outline extraction of a document raises and the output
  path can be opened for writing (a failure to write the output is the orchestrator's
  own I/O failure, the fatal condition of the specification, and not an extraction
  failure), \<open>process_single_pdf\<close> returns \<open>False\<close> and the
  output file holds exactly the sentinel \<open>{title: "Processing Error", outline: []}\<close>:
  a title that was extracted before the outline failed is dropped. The batch goes on:
  the loop of \<open>process_all_pdfs\<close> counts the failure and turns to the remaining file
  names. When the output directory can be made, the input directory can be listed, every
  output path can be written and no two documents share an output path,
  \<open>process_all_pdfs\<close> ends normally, counts the successes and the failures, and the
  output file of every document holds the sentinel when its extraction failed and its
  own result otherwise.
\<close>

theorem extraction_failure_sentinel:
  "(extraction_fails w pdf_path \<and> w_writable w output_path \<longrightarrow>
      process_single_pdf w pdf_path output_path fs =
        (fs(output_path \<mapsto> [\<lparr>out_title = ''Processing Error'', out_outline = []\<rparr>]), Inr False))
   \<and> (w_makedirs w output_dir \<and> w_listdir w input_dir = Inr names
        \<and> (\<forall>n \<in> set names. is_pdf n \<longrightarrow> w_writable w (output_path_of output_dir n))
        \<and> distinct (map (output_path_of output_dir) (filter is_pdf names)) \<longrightarrow>
      (\<exists>fs' p e.
         process_all_pdfs w input_dir output_dir fs = (fs', Inr (p, e))
       \<and> p = length (filter (\<lambda>n. is_pdf n \<and> \<not> extraction_fails w (path_join input_dir n)) names)
       \<and> e = length (filter (\<lambda>n. is_pdf n \<and> extraction_fails w (path_join input_dir n)) names)
       \<and> (\<forall>n \<in> set names. is_pdf n \<longrightarrow>
             fs' (output_path_of output_dir n) =
               Some [if extraction_fails w (path_join input_dir n)
                     then \<lparr>out_title = ''Processing Error'', out_outline = []\<rparr>
                     else document_result w (path_join input_dir n)])))
   \<and> (is_pdf filename \<and> extraction_fails w (path_join input_dir filename)
        \<and> w_writable w (output_path_of output_dir filename) \<longrightarrow>
      batch_loop w input_dir output_dir (filename # rest) (fs, processed_count, error_count) =
        batch_loop w input_dir output_dir rest
          (fs(output_path_of output_dir filename
                \<mapsto> [\<lparr>out_title = ''Processing Error'', out_outline = []\<rparr>]),
           processed_count, error_count + 1))"
proof (intro conjI impI)
  assume "extraction_fails w pdf_path \<and> w_writable w output_path"
  then show "process_single_pdf w pdf_path output_path fs =
        (fs(output_path \<mapsto> [\<lparr>out_title = ''Processing Error'', out_outline = []\<rparr>]), Inr False)"
    using document_result_fails [of w pdf_path]
    by (simp add: process_single_pdf_ok error_output_def)
next
  assume a: "w_makedirs w output_dir \<and> w_listdir w input_dir = Inr names
        \<and> (\<forall>n \<in> set names. is_pdf n \<longrightarrow> w_writable w (output_path_of output_dir n))
        \<and> distinct (map (output_path_of output_dir) (filter is_pdf names))"
  then have eq: "process_all_pdfs w input_dir output_dir fs
                   = batch_loop w input_dir output_dir names (fs, 0, 0)"
    by (simp add: process_all_pdfs_def)
  from a batch_loop_results [of names w output_dir input_dir fs 0 0]
  obtain fs' p e where r: "batch_loop w input_dir output_dir names (fs, 0, 0) = (fs', Inr (p, e))"
    and p: "p = length (filter (\<lambda>n. is_pdf n \<and> \<not> extraction_fails w (path_join input_dir n)) names)"
    and e: "e = length (filter (\<lambda>n. is_pdf n \<and> extraction_fails w (path_join input_dir n)) names)"
    and f: "\<forall>n \<in> set names. is_pdf n \<longrightarrow>
               fs' (output_path_of output_dir n) = Some [document_result w (path_join input_dir n)]"
    by auto
  have "\<forall>n \<in> set names. is_pdf n \<longrightarrow>
             fs' (output_path_of output_dir n) =
               Some [if extraction_fails w (path_join input_dir n)
                     then \<lparr>out_title = ''Processing Error'', out_outline = []\<rparr>
                     else document_result w (path_join input_dir n)]"
    using f document_result_fails by (auto simp: error_output_def)
  then show "\<exists>fs' p e.
         process_all_pdfs w input_dir output_dir fs = (fs', Inr (p, e))
       \<and> p = length (filter (\<lambda>n. is_pdf n \<and> \<not> extraction_fails w (path_join input_dir n)) names)
       \<and> e = length (filter (\<lambda>n. is_pdf n \<and> extraction_fails w (path_join input_dir n)) names)
       \<and> (\<forall>n \<in> set names. is_pdf n \<longrightarrow>
             fs' (output_path_of output_dir n) =
               Some [if extraction_fails w (path_join input_dir n)
                     then \<lparr>out_title = ''Processing Error'', out_outline = []\<rparr>
                     else document_result w (path_join input_dir n)])"
    using eq r p e by auto
next
  assume "is_pdf filename \<and> extraction_fails w (path_join input_dir filename)
        \<and> w_writable w (output_path_of output_dir filename)"
  then show "batch_loop w input_dir output_dir (filename # rest) (fs, processed_count, error_count) =
        batch_loop w input_dir output_dir rest
          (fs(output_path_of output_dir filename
                \<mapsto> [\<lparr>out_title = ''Processing Error'', out_outline = []\<rparr>]),
           processed_count, error_count + 1)"
    using document_result_fails [of w "path_join input_dir filename"]
    by (simp add: is_pdf_def process_single_pdf_ok error_output_def)
qed

theorem extraction_failure_sentinel_witness:
  "extraction_fails ex_world ''/in/a.pdf''
   \<and> extract_title_from_pdf (w_fitz_open ex_world) ''/in/a.pdf'' = Inr ''My Report''
   \<and> process_single_pdf ex_world ''/in/a.pdf'' ''/out/a.json'' Map.empty
       = ([''/out/a.json'' \<mapsto> [\<lparr>out_title = ''Processing Error'', out_outline = []\<rparr>]], Inr False)
   \<and> snd (process_all_pdfs ex_world ''/in'' ''/out'' Map.empty) = Inr (1, 2)
   \<and> fst (process_all_pdfs ex_world ''/in'' ''/out'' Map.empty) ''/out/a.json''
       = Some [\<lparr>out_title = ''Processing Error'', out_outline = []\<rparr>]
   \<and> fst (process_all_pdfs ex_world ''/in'' ''/out'' Map.empty) ''/out/b.json''
       = Some [document_result ex_world ''/in/b.pdf'']"
proof -
  have w: "w_writable ex_world p" "w_makedirs ex_world p"
    "w_listdir ex_world p = Inr [''a.pdf'', ''notes.txt'', ''b.pdf'', ''c.pdf'']" for p
    by (simp_all add: ex_world_def)
  have fc: "extraction_fails ex_world ''/in/c.pdf''" by code_simp
  note t = extraction_failure_sentinel
    [of ex_world "''/in/a.pdf''" "''/out/a.json''" Map.empty "''/out''" "''/in''"
        "[''a.pdf'', ''notes.txt'', ''b.pdf'', ''c.pdf'']" "''a.pdf''" "[]" 0 0]
  have single: "process_single_pdf ex_world ''/in/a.pdf'' ''/out/a.json'' Map.empty
       = ([''/out/a.json'' \<mapsto> [\<lparr>out_title = ''Processing Error'', out_outline = []\<rparr>]], Inr False)"
    using t ex_world_fails_a w by blast
  have "\<exists>fs' p e.
         process_all_pdfs ex_world ''/in'' ''/out'' Map.empty = (fs', Inr (p, e))
       \<and> p = 1 \<and> e = 2
       \<and> fs' ''/out/a.json'' = Some [\<lparr>out_title = ''Processing Error'', out_outline = []\<rparr>]
       \<and> fs' ''/out/b.json'' = Some [document_result ex_world ''/in/b.pdf'']"
    using t w ex_world_fails_a ex_world_ok_b fc
    by (auto simp: ex_names_pdf ex_out_paths numeral_2_eq_2)
  then show ?thesis using single ex_world_fails_a ex_world_title_a by auto
qed

text \<open>
  C8 (amended). \<open>process_single_pdf\<close> writes the output file in place. When the output
  path can be opened for writing, the call goes through two file systems: after the
  open the output file is empty (truncated), after the dump it holds the complete
  result of the document, real or sentinel. No other path changes on the way, so there
  is no temporary file and no atomic publication; the call ends in the second state.
\<close>

theorem output_written_in_place:
  assumes "w_writable w output_path"
  shows "\<exists>tr. process_single_pdf_steps w pdf_path output_path fs
                = (tr, Inr (\<not> extraction_fails w pdf_path))
            \<and> tr = [fs(output_path \<mapsto> []), fs(output_path \<mapsto> [document_result w pdf_path])]
            \<and> hd tr output_path = Some []
            \<and> last tr output_path = Some [document_result w pdf_path]
            \<and> (\<forall>s \<in> set tr. \<forall>x. x \<noteq> output_path \<longrightarrow> s x = fs x)
            \<and> process_single_pdf w pdf_path output_path fs
                = (last tr, Inr (\<not> extraction_fails w pdf_path))"
  using assms by (simp add: process_single_pdf_steps_ok process_single_pdf_ok)

theorem output_written_in_place_witness:
  "map (\<lambda>s. s ''/out/b.json'')
     (fst (process_single_pdf_steps ex_world ''/in/b.pdf'' ''/out/b.json'' ex_old_files))
     = [Some [], Some [document_result ex_world ''/in/b.pdf'']]
   \<and> snd (process_single_pdf_steps ex_world ''/in/b.pdf'' ''/out/b.json'' ex_old_files) = Inr True"
proof -
  have w: "w_writable ex_world ''/out/b.json''" by (simp add: ex_world_def)
  from output_written_in_place [OF w, of "''/in/b.pdf''" ex_old_files] ex_world_ok_b
  show ?thesis by auto
qed

text \<open>
  The claim as stated says the output file never is in a partially written state. An
  output file that holds an earlier result is empty after the open: it holds neither
  the complete real result nor the complete sentinel, and a run cancelled there leaves
  it so.
\<close>

theorem output_truncated_counterexample:
  "ex_old_files ''/out/b.json'' = Some [\<lparr>out_title = ''Old Title'', out_outline = []\<rparr>]
   \<and> (fst (process_single_pdf_steps ex_world ''/in/b.pdf'' ''/out/b.json'' ex_old_files) ! 0)
        ''/out/b.json'' = Some []
   \<and> Some [] \<noteq> Some [document_result ex_world ''/in/b.pdf'']
   \<and> Some [] \<noteq> Some [error_output]"
proof -
  have w: "w_writable ex_world ''/out/b.json''" by (simp add: ex_world_def)
  show ?thesis using process_single_pdf_steps_ok [OF w, of "''/in/b.pdf''" ex_old_files]
    by (simp add: ex_old_files_def)
qed

lemma zero_runs_title:
  "\<not> usable_title doc \<Longrightarrow> zero_runs doc \<Longrightarrow> title_of_document doc = Inr ''Untitled Document''"
  by (auto simp: title_of_document_def usable_title_def first_page_title_blank split: option.splits)

lemma zero_runs_outline:
  "toc doc = [] \<Longrightarrow> zero_runs doc \<Longrightarrow> outline_of_document doc = Inr []"
  by (simp add: outline_of_document_def zero_runs_def scan_pages_blank heuristic_outline_Nil)

lemma ex_blank_zero_runs: "zero_runs ex_blank_doc"
  by (simp add: zero_runs_def no_runs_def ex_blank_doc_def mk_block_def mk_line_def mk_span_def
      strip_def isspace_def)

lemma ex_blank_no_title: "\<not> usable_title ex_blank_doc"
  by (simp add: usable_title_def ex_blank_doc_def strip_def isspace_def)

text \<open>
  C9 (amended). For a document that opens, has no usable metadata title, no bookmarks
  and no run (all pages readable, none with a non-blank span; a document of zero pages
  among them), the title is \<open>"Untitled Document"\<close> and the outline is empty. It is not
  an error: neither extraction fails, and with a writable output path
  \<open>process_single_pdf\<close> writes that result and returns \<open>True\<close>.
\<close>

theorem empty_document_result:
  assumes "w_fitz_open w pdf_path = Inr doc" and "\<not> usable_title doc" and "toc doc = []"
    and "zero_runs doc"
  shows "extract_title_from_pdf (w_fitz_open w) pdf_path = Inr ''Untitled Document''
       \<and> extract_outline_from_pdf (w_fitz_open w) pdf_path = Inr []
       \<and> \<not> extraction_fails w pdf_path
       \<and> (w_writable w output_path \<longrightarrow>
            process_single_pdf w pdf_path output_path fs =
              (fs(output_path \<mapsto> [\<lparr>out_title = ''Untitled Document'', out_outline = []\<rparr>]),
               Inr True))"
proof -
  have t: "extract_title_from_pdf (w_fitz_open w) pdf_path = Inr ''Untitled Document''"
    using assms by (simp add: extract_title_from_pdf_def zero_runs_title)
  have ol: "extract_outline_from_pdf (w_fitz_open w) pdf_path = Inr []"
    using assms by (simp add: extract_outline_from_pdf_def zero_runs_outline)
  have nf: "\<not> extraction_fails w pdf_path" by (simp add: extraction_fails_def t ol)
  have dr: "document_result w pdf_path = \<lparr>out_title = ''Untitled Document'', out_outline = []\<rparr>"
    by (simp add: document_result_def t ol)
  show ?thesis using t ol nf dr by (simp add: process_single_pdf_ok)
qed

theorem empty_document_result_witness:
  "zero_runs ex_blank_doc \<and> \<not> usable_title ex_blank_doc \<and> toc ex_blank_doc = []
   \<and> extract_title_from_pdf (w_fitz_open ex_world) ''/in/d.pdf'' = Inr ''Untitled Document''
   \<and> extract_outline_from_pdf (w_fitz_open ex_world) ''/in/d.pdf'' = Inr []
   \<and> process_single_pdf ex_world ''/in/d.pdf'' ''/out/d.json'' Map.empty =
        ([''/out/d.json'' \<mapsto> [\<lparr>out_title = ''Untitled Document'', out_outline = []\<rparr>]], Inr True)"
proof -
  have o: "w_fitz_open ex_world ''/in/d.pdf'' = Inr ex_blank_doc" by (simp add: ex_world_def)
  have t: "toc ex_blank_doc = []" by (simp add: ex_blank_doc_def)
  have w: "w_writable ex_world ''/out/d.json''" by (simp add: ex_world_def)
  from empty_document_result [OF o ex_blank_no_title t ex_blank_zero_runs, of "''/out/d.json''" Map.empty]
  show ?thesis using ex_blank_zero_runs ex_blank_no_title t w by simp
qed

text \<open>
  The claim as stated does not ask for an empty table of contents. A scanned document
  with one bookmark has no run and no metadata title, and its outline is the bookmark.
\<close>

theorem empty_document_bookmarks_counterexample:
  "zero_runs ex_scanned_doc \<and> \<not> usable_title ex_scanned_doc
   \<and> extract_title_from_pdf (\<lambda>p. Inr ex_scanned_doc) ''s.pdf'' = Inr ''Untitled Document''
   \<and> extract_outline_from_pdf (\<lambda>p. Inr ex_scanned_doc) ''s.pdf''
       = Inr [\<lparr>e_level = ''H1'', e_text = ''Intro'', e_page = 1\<rparr>]
   \<and> extract_outline_from_pdf (\<lambda>p. Inr ex_scanned_doc) ''s.pdf'' \<noteq> Inr []"
proof -
  have z: "zero_runs ex_scanned_doc" by (simp add: zero_runs_def no_runs_def ex_scanned_doc_def)
  have u: "\<not> usable_title ex_scanned_doc" by (simp add: usable_title_def ex_scanned_doc_def)
  have t: "extract_title_from_pdf (\<lambda>p. Inr ex_scanned_doc) ''s.pdf'' = Inr ''Untitled Document''"
    by code_simp
  have ol: "extract_outline_from_pdf (\<lambda>p. Inr ex_scanned_doc) ''s.pdf''
       = Inr [\<lparr>e_level = ''H1'', e_text = ''Intro'', e_page = 1\<rparr>]"
    by code_simp
  show ?thesis using z u t ol by simp
qed

end
